theory Spec2Isabelle
  imports Complex_Main "HOL-Library.Log_Nat" "HOL-Library.Code_Target_Nat"
begin

section \<open>JavaScript values reaching the metrics engine\<close>

text \<open>
  The engine of \<^verbatim>\<open>src/main.js\<close> receives JSON values from the node
  and works on them with BigInt and decimal.js arithmetic. A JavaScript string is the list
  of its UTF-16 code units; \<open>js\<close> turns an ASCII literal into one.
\<close>

type_synonym js_string = "nat list"

definition js :: "string \<Rightarrow> js_string" where
  "js s = map of_char s"

datatype js_error =
    SyntaxError | RangeError | TypeError
  | TransportError | HttpError | InvalidBatchResponse
  | NoPrimeBlocks | NoValidSamples

text \<open>
  A Number is kept only as far as the code looks at it: an integral finite value (both
  zeros are \<open>Integral 0\<close>), NaN, or any other value (infinite or fractional).
\<close>

datatype js_number = Integral int | NaN | NonIntegral

text \<open>
  \<open>JObject p fs\<close> stands for every value that is not a primitive (object, array,
  function) and for a Symbol: \<open>p\<close> is the primitive that the language's
  ToPrimitive conversion yields (\<open>None\<close> when the conversion raises),
  \<open>fs\<close> the properties that a property read can find.
\<close>

datatype js_value =
    JUndefined | JNull | JBool bool | JNum js_number | JStr js_string | JBigInt int
  | JObject "js_value option" "(js_string \<times> js_value) list"

fun truthy :: "js_value \<Rightarrow> bool" where
  "truthy JUndefined = False"
| "truthy JNull = False"
| "truthy (JBool b) = b"
| "truthy (JNum (Integral i)) = (i \<noteq> 0)"
| "truthy (JNum NaN) = False"
| "truthy (JNum NonIntegral) = True"
| "truthy (JStr s) = (s \<noteq> [])"
| "truthy (JBigInt i) = (i \<noteq> 0)"
| "truthy (JObject p fs) = True"

text \<open>\<^verbatim>\<open>v || null\<close>.\<close>

definition or_null :: "js_value \<Rightarrow> js_value" where
  "or_null v = (if truthy v then v else JNull)"

text \<open>
  \<^verbatim>\<open>v.name\<close> for a value \<open>v\<close> that is neither null nor
  undefined.
\<close>

fun get_prop :: "js_value \<Rightarrow> js_string \<Rightarrow> js_value" where
  "get_prop (JObject p fs) name =
     (case map_of fs name of Some v \<Rightarrow> v | None \<Rightarrow> JUndefined)"
| "get_prop v name = JUndefined"

subsection \<open>The BigInt constructor\<close>

definition is_white :: "nat \<Rightarrow> bool" where
  "is_white c =
     (c = 9 \<or> c = 10 \<or> c = 11 \<or> c = 12 \<or> c = 13 \<or> c = 32
      \<or> c = 160 \<or> c = 5760 \<or> (8192 \<le> c \<and> c \<le> 8202)
      \<or> c = 8232 \<or> c = 8233 \<or> c = 8239 \<or> c = 8287
      \<or> c = 12288 \<or> c = 65279)"

definition trim :: "js_string \<Rightarrow> js_string" where
  "trim s = rev (dropWhile is_white (rev (dropWhile is_white s)))"

definition digit_val :: "nat \<Rightarrow> nat option" where
  "digit_val c =
     (if 48 \<le> c \<and> c \<le> 57 then Some (c - 48)
      else if 97 \<le> c \<and> c \<le> 122 then Some (c - 87)
      else if 65 \<le> c \<and> c \<le> 90 then Some (c - 55)
      else None)"

fun digits_acc :: "nat \<Rightarrow> int \<Rightarrow> js_string \<Rightarrow> int option" where
  "digits_acc base acc [] = Some acc"
| "digits_acc base acc (c # cs) =
     (case digit_val c of
        None \<Rightarrow> None
      | Some d \<Rightarrow>
          if d < base then digits_acc base (acc * int base + int d) cs else None)"

definition digits_value :: "nat \<Rightarrow> js_string \<Rightarrow> int option" where
  "digits_value base cs = (if cs = [] then None else digits_acc base 0 cs)"

definition syntax_or :: "int option \<Rightarrow> js_error + int" where
  "syntax_or r = (case r of None \<Rightarrow> Inl SyntaxError | Some n \<Rightarrow> Inr n)"

text \<open>
  StringToBigInt: white space is trimmed, the empty string is 0, a \<open>0x\<close>,
  \<open>0o\<close> or \<open>0b\<close> literal carries no sign, a decimal one may.
\<close>

definition StringToBigInt :: "js_string \<Rightarrow> js_error + int" where
  "StringToBigInt s =
     (let t = trim s in
      if t = [] then Inr 0
      else if take 2 t = js ''0x'' \<or> take 2 t = js ''0X''
          then syntax_or (digits_value 16 (drop 2 t))
      else if take 2 t = js ''0o'' \<or> take 2 t = js ''0O''
          then syntax_or (digits_value 8 (drop 2 t))
      else if take 2 t = js ''0b'' \<or> take 2 t = js ''0B''
          then syntax_or (digits_value 2 (drop 2 t))
      else if take 1 t = js ''-'' then syntax_or (map_option uminus (digits_value 10 (drop 1 t)))
      else if take 1 t = js ''+'' then syntax_or (digits_value 10 (drop 1 t))
      else syntax_or (digits_value 10 t))"

fun BigInt_of_primitive :: "js_value \<Rightarrow> js_error + int" where
  "BigInt_of_primitive (JNum (Integral i)) = Inr i"
| "BigInt_of_primitive (JNum n) = Inl RangeError"
| "BigInt_of_primitive (JBool b) = Inr (if b then 1 else 0)"
| "BigInt_of_primitive (JBigInt i) = Inr i"
| "BigInt_of_primitive (JStr s) = StringToBigInt s"
| "BigInt_of_primitive v = Inl TypeError"

fun BigInt_ctor :: "js_value \<Rightarrow> js_error + int" where
  "BigInt_ctor (JObject None fs) = Inl TypeError"
| "BigInt_ctor (JObject (Some p) fs) = BigInt_of_primitive p"
| "BigInt_ctor v = BigInt_of_primitive v"

subsection \<open>BigInt arithmetic\<close>

text \<open>
  BigInt values are unbounded integers. Division truncates towards zero and raises a
  RangeError on a zero divisor; a shift by a negative count shifts the other way.
\<close>

definition bigint_div :: "int \<Rightarrow> int \<Rightarrow> js_error + int" where
  "bigint_div a b =
     (if b = 0 then Inl RangeError else Inr (sgn a * sgn b * (\<bar>a\<bar> div \<bar>b\<bar>)))"

definition bigint_shl :: "int \<Rightarrow> int \<Rightarrow> int" where
  "bigint_shl a n = (if 0 \<le> n then a * 2 ^ nat n else a div 2 ^ nat (- n))"

definition bigint_shr :: "int \<Rightarrow> int \<Rightarrow> int" where
  "bigint_shr a n = bigint_shl a (- n)"

definition bindE :: "'e + 'a \<Rightarrow> ('a \<Rightarrow> 'e + 'b) \<Rightarrow> 'e + 'b" where
  "bindE m f = (case m of Inl e \<Rightarrow> Inl e | Inr a \<Rightarrow> f a)"

text \<open>\<^verbatim>\<open>try { body } catch (e) { handler }\<close>.\<close>

definition try_catch :: "'e + 'a \<Rightarrow> ('e \<Rightarrow> 'e + 'a) \<Rightarrow>
    'e + 'a" where
  "try_catch body handler = (case body of Inl e \<Rightarrow> handler e
      | Inr a \<Rightarrow> Inr a)"

section \<open>hexToBigInt\<close>

text \<open>
  What \<open>hexToBigInt\<close> hands to \<open>BigInt\<close>: a string gets the prefix
  \<open>0x\<close> unless it starts with it, any other value is passed as it is.
\<close>

definition hex_operand :: "js_value \<Rightarrow> js_value" where
  "hex_operand hex =
     (case hex of
        JStr s \<Rightarrow> JStr (if take 2 s = js ''0x'' then s else js ''0x'' @ s)
      | _ \<Rightarrow> hex)"

definition hexToBigInt :: "js_value \<Rightarrow> js_error + int" where
  "hexToBigInt hex =
     (if \<not> truthy hex then Inr 0
      else try_catch (BigInt_ctor (hex_operand hex)) (\<lambda>e. Inr 0))"

section \<open>FixedPointLog: logBigInt\<close>

definition MANT_BITS :: int where
  "MANT_BITS = 64"

definition SCALE_2E64 :: int where
  "SCALE_2E64 = bigint_shl 1 64"

text \<open>
  \<^verbatim>\<open>while (temp > 1n) { temp = temp >> 1n; c++; }\<close>, returning
  \<open>c\<close>.
\<close>

function log_loop :: "int \<Rightarrow> int \<Rightarrow> int" where
  "log_loop temp c = (if temp > 1 then log_loop (bigint_shr temp 1) (c + 1) else c)"
  by pat_completeness auto
termination
  by (relation "measure (\<lambda>(temp, c). nat temp)")
     (auto simp: bigint_shr_def bigint_shl_def)

declare log_loop.simps [simp del]

definition logBigInt :: "int \<Rightarrow> js_error + int" where
  "logBigInt x =
     (if x \<le> 0 then Inr 0
      else
        let c = log_loop x 0;
            twoPowC = bigint_shl 1 c;
            remainder = x - twoPowC
        in bindE (bigint_div (remainder * SCALE_2E64) twoPowC)
             (\<lambda>m. Inr (c * SCALE_2E64 + m)))"


section \<open>Decimal arithmetic\<close>

text \<open>
  \<^verbatim>\<open>Decimal.set({ precision: DECIMAL_PREC,\<close>
  \<^verbatim>\<open>rounding: Decimal.ROUND_HALF_UP })\<close>: the decimal.js library
  (loaded by \<^verbatim>\<open>vendor/load-libs.js\<close>, not part of the repository)
  keeps a value as written by its constructor, and rounds the result of
  \<open>plus\<close> and \<open>div\<close> to 40 significant digits, a tie going away from
  zero. A finite Decimal is the rational it denotes (the sign of a zero is not kept);
  \<open>NonFinite\<close> stands for NaN and the two infinities, which only a division by
  zero produces. The library's exponent limit (\<open>9e15\<close>) is beyond any value that
  fits in memory and is not modelled.
\<close>

datatype decimal = Finite rat | NonFinite

definition DECIMAL_PREC :: nat where
  "DECIMAL_PREC = 40"

definition pow10 :: "int \<Rightarrow> rat" where
  "pow10 e = (if 0 \<le> e then 10 ^ nat e else 1 / 10 ^ nat (- e))"

text \<open>The number of decimal digits of a positive integer (0 for the others).\<close>

function ndigits :: "int \<Rightarrow> int" where
  "ndigits n = (if n \<le> 0 then 0 else 1 + ndigits (n div 10))"
  by pat_completeness auto
termination
  by (relation "measure nat") auto

declare ndigits.simps [simp del]

text \<open>
  The decimal exponent of a positive rational \<open>q = a / b\<close>: the \<open>e\<close>
  with \<open>10^e \<le> q < 10^(e+1)\<close>. For \<open>q < 1\<close> it is the least
  \<open>k\<close> with \<open>b \<le> a * 10^k\<close>, negated.
\<close>

definition exponent10 :: "rat \<Rightarrow> int" where
  "exponent10 q =
     (let a = fst (quotient_of q); b = snd (quotient_of q)
      in if b \<le> a then ndigits (a div b) - 1
         else - ndigits ((b + a - 1) div a - 1))"

definition round_sig :: "rat \<Rightarrow> rat" where
  "round_sig q =
     (if q = 0 then 0
      else
        let ulp = pow10 (exponent10 \<bar>q\<bar> - int DECIMAL_PREC + 1)
        in sgn q * of_int \<lfloor>\<bar>q\<bar> / ulp + 1 / 2\<rfloor> * ulp)"

text \<open>
  \<^verbatim>\<open>new Decimal(n)\<close> and
  \<^verbatim>\<open>new Decimal(bi.toString())\<close> for an integer.
\<close>

definition Decimal_of_int :: "int \<Rightarrow> decimal" where
  "Decimal_of_int n = Finite (of_int n)"

definition toDecimalFromBigInt :: "int \<Rightarrow> decimal" where
  "toDecimalFromBigInt bi = Decimal_of_int bi"

text \<open>\<^verbatim>\<open>x.plus(y)\<close>.\<close>

fun plus_dec :: "decimal \<Rightarrow> decimal \<Rightarrow> decimal" where
  "plus_dec (Finite a) (Finite b) = Finite (round_sig (a + b))"
| "plus_dec x y = NonFinite"

text \<open>
  \<^verbatim>\<open>x.div(new Decimal(n))\<close>: every divisor in the code is a Decimal
  made from an integer.
\<close>

fun div_by :: "decimal \<Rightarrow> int \<Rightarrow> decimal" where
  "div_by (Finite a) n = (if n = 0 then NonFinite else Finite (round_sig (a / of_int n)))"
| "div_by NonFinite n = NonFinite"

section \<open>ConsensusMetricCalculator\<close>

definition ONE_OVER_ALPHA_BI :: int where
  "ONE_OVER_ALPHA_BI = 1000"

definition SCALE_BI :: int where
  "SCALE_BI = bigint_shl 1 64"

text \<open>
  The object \<^verbatim>\<open>{ ratio, deltaK, kQuaiIncrease }\<close> returned by
  \<open>computeExactDeltaK\<close>.
\<close>

record exact_result =
  res_ratio :: decimal
  res_deltaK :: decimal
  kQuaiIncrease :: bool

text \<open>
  The object \<^verbatim>\<open>{ ratio, deltaK }\<close> returned by the legacy function.
\<close>

record approx_result =
  apx_ratio :: decimal
  apx_deltaK :: decimal

definition computeExactDeltaK_try :: "js_value \<Rightarrow> js_value \<Rightarrow>
    js_error + exact_result" where
  "computeExactDeltaK_try bestDiffNormHex minerDiffHex =
     bindE (hexToBigInt bestDiffNormHex) (\<lambda>xbStar.
     bindE (hexToBigInt minerDiffHex) (\<lambda>minerDiff.
       if xbStar = 0 \<or> minerDiff = 0 \<or> minerDiff \<le> 0 then
         Inr \<lparr>res_ratio = Decimal_of_int 1, res_deltaK = Decimal_of_int 0,
              kQuaiIncrease = False\<rparr>
       else
         let d1 = SCALE_BI * minerDiff
         in bindE (logBigInt minerDiff) (\<lambda>d2.
              let xbStarTimesD2 = xbStar * d2;
                  num = xbStarTimesD2 - d1;
                  increase = (num > 0);
                  denum = d1 * ONE_OVER_ALPHA_BI;
                  deltaKDec = div_by (Decimal_of_int num) denum;
                  ratioDec = div_by (Decimal_of_int xbStarTimesD2) d1
              in Inr \<lparr>res_ratio = ratioDec, res_deltaK = deltaKDec,
                      kQuaiIncrease = increase\<rparr>)))"

definition computeExactDeltaK :: "js_value \<Rightarrow> js_value \<Rightarrow>
    js_error + exact_result" where
  "computeExactDeltaK bestDiffNormHex minerDiffHex =
     try_catch (computeExactDeltaK_try bestDiffNormHex minerDiffHex)
       (\<lambda>e. Inr \<lparr>res_ratio = Decimal_of_int 1, res_deltaK = Decimal_of_int 0,
                  kQuaiIncrease = False\<rparr>)"

definition computeRatioAndDeltaKFromNormHex_try ::
  "js_value \<Rightarrow> js_value \<Rightarrow> js_error + approx_result" where
  "computeRatioAndDeltaKFromNormHex_try bestHex minerHex =
     bindE (hexToBigInt bestHex) (\<lambda>best.
     bindE (hexToBigInt minerHex) (\<lambda>miner.
       if best = 0 \<or> miner = 0 then
         Inr \<lparr>apx_ratio = Decimal_of_int 1, apx_deltaK = Decimal_of_int 0\<rparr>
       else
         bindE (bigint_div (best * SCALE_BI) miner) (\<lambda>ratioScaled.
           let deltaScaled = ratioScaled - SCALE_BI
           in bindE (bigint_div deltaScaled ONE_OVER_ALPHA_BI) (\<lambda>deltaKScaled.
                let ratioDec = div_by (Decimal_of_int ratioScaled) SCALE_BI;
                    deltaKDec = div_by (Decimal_of_int deltaKScaled) SCALE_BI
                in Inr \<lparr>apx_ratio = ratioDec, apx_deltaK = deltaKDec\<rparr>))))"

definition computeRatioAndDeltaKFromNormHex ::
  "js_value \<Rightarrow> js_value \<Rightarrow> js_error + approx_result" where
  "computeRatioAndDeltaKFromNormHex bestHex minerHex =
     try_catch (computeRatioAndDeltaKFromNormHex_try bestHex minerHex)
       (\<lambda>e. Inr \<lparr>apx_ratio = Decimal_of_int 1,
                  apx_deltaK = Decimal_of_int 0\<rparr>)"


section \<open>RpcBatchClient\<close>

text \<open>
  One entry of a batch response array: a falsy entry, or an entry with its \<open>id\<close>
  (\<open>None\<close> when \<^verbatim>\<open>typeof item.id === 'undefined'\<close>),
  whether \<open>item.error\<close> is truthy, and \<open>item.result\<close>. An id stands
  for the property key under which \<^verbatim>\<open>map[item.id] = ...\<close> stores the
  entry. The key \<^verbatim>\<open>__proto__\<close>, which that assignment does not store
  (it makes the value the prototype of \<open>map\<close>), is not among the ids modelled.
\<close>

datatype 'i item = Falsy | Item "'i option" bool js_value

text \<open>
  The node and the transport are the environment: the reply to the \<open>k\<close>-th batch
  POST of a session (counted from 0) with a given body is either a failure
  (\<open>fetch\<close> rejects or is aborted by the timer, the status is not ok, the body
  is not JSON or not an array) or the response array. Waiting (timeouts, back-off) takes no
  part in the result and is not modelled.
\<close>

type_synonym ('q, 'i) network = "nat \<Rightarrow> 'q list \<Rightarrow> js_error + 'i item list"

text \<open>
  \<^verbatim>\<open>{ timeout, retries }\<close>; \<open>retries\<close> is a natural
  number (every call site of the batch functions passes 0, which is also the default).
\<close>

record rpc_opts =
  timeout :: nat
  retries :: nat

text \<open>
  The loop of \<open>rpcBatch\<close> that fills \<open>map\<close> from the response array.
\<close>

fun batch_map :: "'i item list \<Rightarrow> ('i \<rightharpoonup> js_value) \<Rightarrow>
    ('i \<rightharpoonup> js_value)" where
  "batch_map [] m = m"
| "batch_map (Falsy # items) m = batch_map items m"
| "batch_map (Item None err res # items) m = batch_map items m"
| "batch_map (Item (Some i) err res # items) m =
     batch_map items (if err then m(i \<mapsto> JNull) else m(i \<mapsto> res))"

text \<open>
  \<open>rpcBatch\<close>, from some attempt on, with
  \<open>remaining = retries - attempt\<close>. The state passed along is the list of the
  bodies POSTed so far.
\<close>

fun rpcBatch_from ::
  "('q, 'i) network \<Rightarrow> 'q list \<Rightarrow> nat \<Rightarrow> 'q list list
     \<Rightarrow> (js_error + ('i \<rightharpoonup> js_value)) \<times> 'q list list" where
  "rpcBatch_from net batchReq remaining posts =
     (case net (length posts) batchReq of
        Inr data \<Rightarrow> (Inr (batch_map data Map.empty), posts @ [batchReq])
      | Inl err \<Rightarrow>
          (case remaining of
             0 \<Rightarrow> (Inl err, posts @ [batchReq])
           | Suc r \<Rightarrow> rpcBatch_from net batchReq r (posts @ [batchReq])))"

declare rpcBatch_from.simps [simp del]

definition rpcBatch ::
  "('q, 'i) network \<Rightarrow> 'q list \<Rightarrow> rpc_opts \<Rightarrow> 'q list list
     \<Rightarrow> (js_error + ('i \<rightharpoonup> js_value)) \<times> 'q list list" where
  "rpcBatch net batchReq opts posts = rpcBatch_from net batchReq (retries opts) posts"

text \<open>\<^verbatim>\<open>xs.slice(start, end)\<close>.\<close>

definition js_slice :: "'a list \<Rightarrow> int \<Rightarrow> int \<Rightarrow> 'a list" where
  "js_slice xs start fin =
     (let len = int (length xs);
          k = (if start < 0 then max (len + start) 0 else min start len);
          e = (if fin < 0 then max (len + fin) 0 else min fin len)
      in take (nat (e - k)) (drop (nat k) xs))"

text \<open>
  The slicing loop of \<open>sendBatchWithLimit\<close>. A slice whose
  \<open>rpcBatch\<close> throws is skipped. With \<open>maxPer \<le> 0\<close> the index
  never passes the length and the loop does not end: the value is then \<open>None\<close>.
\<close>

partial_function (option) slice_loop ::
  "('q, 'i) network \<Rightarrow> 'q list \<Rightarrow> int \<Rightarrow> rpc_opts
     \<Rightarrow> int \<Rightarrow> ('i \<rightharpoonup> js_value) \<Rightarrow> 'q list list
     \<Rightarrow> (('i \<rightharpoonup> js_value) \<times> 'q list list) option" where
  "slice_loop net batchReq maxPer opts i merged posts =
     (if i < int (length batchReq) then
        slice_loop net batchReq maxPer opts (i + maxPer)
          (case fst (rpcBatch net (js_slice batchReq i (i + maxPer)) opts posts) of
             Inr partMap \<Rightarrow> merged ++ partMap
           | Inl err \<Rightarrow> merged)
          (snd (rpcBatch net (js_slice batchReq i (i + maxPer)) opts posts))
      else Some (merged, posts))"

declare slice_loop.simps [code]

definition sendBatchWithLimit ::
  "('q, 'i) network \<Rightarrow> 'q list \<Rightarrow> int \<Rightarrow> rpc_opts
     \<Rightarrow> 'q list list
     \<Rightarrow> ((js_error + ('i \<rightharpoonup> js_value)) \<times> 'q list list) option"
  where
  "sendBatchWithLimit net batchReq maxPer opts posts =
     (if batchReq = [] then Some (Inr Map.empty, posts)
      else if int (length batchReq) \<le> maxPer then Some (rpcBatch net batchReq opts posts)
      else map_option (\<lambda>(merged, posts'). (Inr merged, posts'))
             (slice_loop net batchReq maxPer opts 0 Map.empty posts))"

text \<open>
  \<^verbatim>\<open>sendBatchWithLimit(...).catch(e => { ...; return {}; })\<close>.
\<close>

definition sendBatchWithLimit_or_empty ::
  "('q, 'i) network \<Rightarrow> 'q list \<Rightarrow> int \<Rightarrow> rpc_opts
     \<Rightarrow> 'q list list
     \<Rightarrow> (('i \<rightharpoonup> js_value) \<times> 'q list list) option" where
  "sendBatchWithLimit_or_empty net batchReq maxPer opts posts =
     map_option
       (\<lambda>(r, posts').
          (case r of Inr m \<Rightarrow> m | Inl e \<Rightarrow> Map.empty, posts'))
       (sendBatchWithLimit net batchReq maxPer opts posts)"


section \<open>Samples\<close>

text \<open>
  The three requests of a block carry the ids \<^verbatim>\<open>`${n}_m`\<close>,
  \<^verbatim>\<open>`${n}_b`\<close> and \<^verbatim>\<open>`${n}_h`\<close>:
  \<open>BlockId n t\<close> is that string, \<open>OtherId\<close> any other key a response
  may carry. The parameter \<^verbatim>\<open>'0x' + n.toString(16)\<close> is kept as
  \<open>n\<close>. A block number is a JavaScript Number whose value is an integer; it is
  kept as that integer.
\<close>

datatype id_tag = Tag_m | Tag_b | Tag_h

datatype batch_id = BlockId int id_tag | OtherId js_string

datatype rpc_method =
  quai_getMinerDiffNormalized | quai_getBestDiffNormalized | quai_getHeaderByNumber

record request =
  req_method :: rpc_method
  req_params :: int
  req_id :: batch_id

definition block_requests :: "int \<Rightarrow> request list" where
  "block_requests n =
     [\<lparr>req_method = quai_getMinerDiffNormalized, req_params = n,
       req_id = BlockId n Tag_m\<rparr>,
      \<lparr>req_method = quai_getBestDiffNormalized, req_params = n,
       req_id = BlockId n Tag_b\<rparr>,
      \<lparr>req_method = quai_getHeaderByNumber, req_params = n,
       req_id = BlockId n Tag_h\<rparr>]"

text \<open>The object pushed on the series, field by field.\<close>

record sample =
  primeNum :: int
  header :: js_value
  dInstant :: "decimal option"
  dStar :: "decimal option"
  deltaK :: decimal
  ratio :: decimal
  convInfo :: js_value
  kQuai :: js_value

text \<open>\<^verbatim>\<open>map[key] || null\<close>.\<close>

definition lookup_or_null :: "(batch_id \<rightharpoonup> js_value) \<Rightarrow>
    batch_id \<Rightarrow> js_value" where
  "lookup_or_null m k =
     or_null (case m k of None \<Rightarrow> JUndefined | Some v \<Rightarrow> v)"

text \<open>
  \<^verbatim>\<open>try { if (raw) { const big = hexToBigInt(raw);\<close>
  \<^verbatim>\<open>if (big && big > 0n) d = toDecimalFromBigInt(big); } }\<close>
  \<^verbatim>\<open>catch (e) { d = null; }\<close> with \<open>d\<close> starting as null.
\<close>

definition parsed_difficulty :: "js_value \<Rightarrow> js_error + decimal option" where
  "parsed_difficulty raw =
     try_catch
       (if truthy raw then
          bindE (hexToBigInt raw) (\<lambda>big.
            Inr (if big \<noteq> 0 \<and> big > 0 then Some (toDecimalFromBigInt big) else None))
        else Inr None)
       (\<lambda>e. Inr None)"

text \<open>
  Which branch of the \<open>if\<close> chain computes \<open>ratio\<close> and
  \<open>deltaK\<close> of a sample.
\<close>

datatype formula = Exact | Approximate | NeutralDefault

definition formula_used :: "js_value \<Rightarrow> js_value \<Rightarrow> js_value \<Rightarrow>
    formula" where
  "formula_used minerRaw bestRaw hdr =
     (if truthy bestRaw \<and> truthy hdr \<and> truthy (get_prop hdr (js ''minerDifficulty''))
         then Exact
      else if truthy minerRaw \<and> truthy bestRaw then Approximate
      else NeutralDefault)"

text \<open>
  The body of the sample loop, the same in \<open>fetchWindowData\<close> (lines 759 to 811)
  and in \<open>fetchAndAppendLatest\<close> (lines 1041 to 1069).
\<close>

definition build_sample :: "(batch_id \<rightharpoonup> js_value) \<Rightarrow> int \<Rightarrow>
    js_error + sample" where
  "build_sample resultMap n =
     (let minerRaw = lookup_or_null resultMap (BlockId n Tag_m);
          bestRaw = lookup_or_null resultMap (BlockId n Tag_b);
          headerRaw = lookup_or_null resultMap (BlockId n Tag_h)
      in bindE (parsed_difficulty minerRaw) (\<lambda>dInstant'.
         bindE (parsed_difficulty bestRaw) (\<lambda>dStar'.
           let hdr = or_null headerRaw;
               kQuai' = (if truthy hdr \<and> truthy (get_prop hdr (js ''exchangeRate''))
                         then get_prop hdr (js ''exchangeRate'') else JNull)
           in bindE
                (case formula_used minerRaw bestRaw hdr of
                   Exact \<Rightarrow>
                     bindE (computeExactDeltaK bestRaw (get_prop hdr (js ''minerDifficulty'')))
                       (\<lambda>r. Inr (res_ratio r, res_deltaK r))
                 | Approximate \<Rightarrow>
                     bindE (computeRatioAndDeltaKFromNormHex bestRaw minerRaw)
                       (\<lambda>r. Inr (apx_ratio r, apx_deltaK r))
                 | NeutralDefault \<Rightarrow> Inr (Decimal_of_int 1, Decimal_of_int 0))
                (\<lambda>rd. Inr \<lparr>primeNum = n, header = hdr,
                            dInstant = dInstant', dStar = dStar',
                            deltaK = snd rd, ratio = fst rd, convInfo = JNull,
                            kQuai = kQuai'\<rparr>))))"

section \<open>ChunkAggregator\<close>

text \<open>
  \<open>avgDec\<close> on an array whose entries are Decimals or null, which is what the
  series fields hold; its branches for other entries are not reached.
\<close>

definition avgDec :: "decimal option list \<Rightarrow> decimal" where
  "avgDec arr =
     (if arr = [] then Decimal_of_int 0
      else div_by
             (foldl (\<lambda>sum v. case v of Some d \<Rightarrow> plus_dec sum d
                                       | None \<Rightarrow> plus_dec sum (Decimal_of_int 0))
                (Decimal_of_int 0) arr)
             (int (length arr)))"

text \<open>
  What one chunk adds to the four parallel arrays \<open>labels\<close>,
  \<open>dValues\<close>, \<open>dStarValues\<close> and \<open>dkValues\<close>: the label
  \<^verbatim>\<open>`${firstPrime}-${lastPrime}`\<close> as its two numbers, and the three
  averages. An empty chunk adds nothing.
\<close>

record chunk_row =
  firstPrime :: int
  lastPrime :: int
  avgD :: decimal
  avgDStar :: decimal
  avgDk :: decimal

fun chunk_row_of :: "sample list \<Rightarrow> chunk_row option" where
  "chunk_row_of [] = None"
| "chunk_row_of (x # xs) =
     Some \<lparr>firstPrime = primeNum x, lastPrime = primeNum (last (x # xs)),
           avgD = avgDec (map dInstant (x # xs)),
           avgDStar = avgDec (map dStar (x # xs)),
           avgDk = avgDec (map (\<lambda>s. Some (deltaK s)) (x # xs))\<rparr>"

text \<open>
  The chunking loop of \<open>updateUIFromSeries\<close>. With
  \<open>chunkSizePrime \<le> 0\<close> and a series that is not empty the loop does not
  end.
\<close>

partial_function (option) chunk_loop ::
  "sample list \<Rightarrow> int \<Rightarrow> int \<Rightarrow> chunk_row list \<Rightarrow>
      chunk_row list option" where
  "chunk_loop series chunkSizePrime i rows =
     (if i < int (length series) then
        chunk_loop series chunkSizePrime (i + chunkSizePrime)
          (case chunk_row_of (js_slice series i (i + chunkSizePrime)) of
             None \<Rightarrow> rows
           | Some row \<Rightarrow> rows @ [row])
      else Some rows)"

declare chunk_loop.simps [code]

text \<open>
  The part of \<open>updateUIFromSeries\<close> that computes what is drawn; the conversion
  of the averages to Numbers for the chart and the metric widgets are outside the model.
\<close>

definition updateUIFromSeries :: "sample list \<Rightarrow> int \<Rightarrow>
    chunk_row list option" where
  "updateUIFromSeries series chunkSizePrime = chunk_loop series chunkSizePrime 0 []"


section \<open>SeriesWindow\<close>

text \<open>
  The module's mutable state, as far as the engine reads or writes it: the globals
  \<open>currentSeries\<close> and \<open>autoDetectedPrimes\<close>, the two inputs (as
  \<^verbatim>\<open>parseInt(input.value, 10)\<close> reads them, \<open>None\<close> for
  NaN), the batch bodies POSTed so far, the number of
  \<^verbatim>\<open>quai_blockNumber\<close> calls made so far, the rows last handed to the
  chart, and the error last written to the status line (\<open>None\<close> once a refresh
  has drawn). Element handles, the spinner and the single calls made for the metric widgets
  are not part of it.
\<close>

record app_state =
  currentSeries :: "sample list"
  autoDetectedPrimes :: nat
  windowInput :: "int option"
  chunkInput :: "int option"
  posts :: "request list list"
  blockNumberCalls :: nat
  chartRows :: "chunk_row list"
  statusError :: "js_error option"

text \<open>
  The node: the outcome of the \<open>k\<close>-th
  \<^verbatim>\<open>rpcCall(url, "quai_blockNumber", [])\<close> followed by
  \<^verbatim>\<open>parseInt(latestHex, 16)\<close> (\<open>Inl\<close> when the call
  throws, \<open>Inr None\<close> when the number is NaN), and the replies to batch POSTs.
\<close>

record node =
  blockNumberReply :: "nat \<Rightarrow> js_error + int option"
  batchReply :: "(request, batch_id) network"

text \<open>\<^verbatim>\<open>parseInt(input.value, 10) || dflt\<close>.\<close>

definition input_or :: "int option \<Rightarrow> int \<Rightarrow> int" where
  "input_or v dflt =
     (case v of None \<Rightarrow> dflt | Some w \<Rightarrow> if w = 0 then dflt else w)"

text \<open>
  Number arithmetic on block numbers. The sum and the difference of two Numbers with integer
  values is the exact result rounded to the nearest double: the result itself below
  \<open>2^53\<close>, and beyond that the nearest integer with a mantissa of 53 bits, a tie
  going to the even mantissa. Infinite Numbers are not modelled.
\<close>

definition to_double :: "int \<Rightarrow> int" where
  "to_double x =
     (if \<bar>x\<bar> < 2 ^ 53 then x
      else
        let e = nat (bitlen \<bar>x\<bar> - 53);
            q = \<bar>x\<bar> div 2 ^ e;
            r = \<bar>x\<bar> mod 2 ^ e;
            m = (if 2 ^ e < 2 * r \<or> (2 * r = 2 ^ e \<and> odd q) then q + 1 else q)
        in sgn x * (m * 2 ^ e))"

definition num_add :: "int \<Rightarrow> int \<Rightarrow> int" where
  "num_add a b = to_double (a + b)"

definition num_sub :: "int \<Rightarrow> int \<Rightarrow> int" where
  "num_sub a b = to_double (a - b)"

text \<open>
  \<^verbatim>\<open>for (let n = start; n <= latest; n++) list.push(n)\<close>. From
  \<open>2^53\<close> on \<open>n + 1\<close> may round to \<open>n\<close>; the counter
  then stays where it is and the loop does not end, which is the value \<open>None\<close>.
  No comparison with NaN holds, so the list is then empty.
\<close>

partial_function (option) block_loop ::
  "int \<Rightarrow> int \<Rightarrow> int list \<Rightarrow> int list option" where
  "block_loop n latest list =
     (if n \<le> latest then
        (if num_add n 1 = n then None
         else block_loop (num_add n 1) latest (list @ [n]))
      else Some list)"

declare block_loop.simps [code]

definition block_list :: "int option \<Rightarrow> int option \<Rightarrow> int list option" where
  "block_list start latest =
     (case (start, latest) of
        (Some a, Some b) \<Rightarrow> block_loop a b []
      | _ \<Rightarrow> Some [])"

text \<open>
  The block of \<open>fetchWindowData\<close> that fills \<open>combinedMap\<close>: one
  POST for a batch of at most one request, else two POSTs of half the batch each; when a
  POST of either attempt throws, \<open>sendBatchWithLimit\<close> with 2000 items per POST,
  an empty map if that throws too.
\<close>

definition fetch_combined ::
  "(request, batch_id) network \<Rightarrow> request list \<Rightarrow> request list list
     \<Rightarrow> ((batch_id \<rightharpoonup> js_value) \<times> request list list) option"
  where
  "fetch_combined net combinedBatch ps =
     (if length combinedBatch \<le> 1 then
        (case rpcBatch net combinedBatch \<lparr>timeout = 180000, retries = 0\<rparr> ps of
           (Inr m, ps1) \<Rightarrow> Some (m, ps1)
         | (Inl err, ps1) \<Rightarrow>
             sendBatchWithLimit_or_empty net combinedBatch 2000
               \<lparr>timeout = 120000, retries = 0\<rparr> ps1)
      else
        let mid = (int (length combinedBatch) + 1) div 2;
            firstSlice = js_slice combinedBatch 0 mid;
            secondSlice = js_slice combinedBatch mid (int (length combinedBatch))
        in (case rpcBatch net firstSlice \<lparr>timeout = 180000, retries = 0\<rparr> ps of
              (Inl twoErr, ps1) \<Rightarrow>
                sendBatchWithLimit_or_empty net combinedBatch 2000
                  \<lparr>timeout = 120000, retries = 0\<rparr> ps1
            | (Inr firstMap, ps1) \<Rightarrow>
                (case rpcBatch net secondSlice
                        \<lparr>timeout = 180000, retries = 0\<rparr> ps1 of
                   (Inl twoErr, ps2) \<Rightarrow>
                     sendBatchWithLimit_or_empty net combinedBatch 2000
                       \<lparr>timeout = 120000, retries = 0\<rparr> ps2
                 | (Inr secondMap, ps2) \<Rightarrow> Some (firstMap ++ secondMap, ps2))))"

text \<open>The loop that pushes one sample per block on \<open>series\<close>.\<close>

fun build_series ::
  "(batch_id \<rightharpoonup> js_value) \<Rightarrow> int list \<Rightarrow> sample list
     \<Rightarrow> js_error + sample list" where
  "build_series m [] series = Inr series"
| "build_series m (n # ns) series =
     bindE (build_sample m n) (\<lambda>s. build_series m ns (series @ [s]))"

text \<open>
  The status line after \<open>updateUIFromSeries\<close>: the text \<open>OK\<close>
  replaces what was there unless \<^verbatim>\<open>lastEntry.primeNum || null\<close> is
  null, that is unless the series is empty or its last block number is 0.
\<close>

definition status_after_draw :: "sample list \<Rightarrow> js_error option \<Rightarrow>
    js_error option" where
  "status_after_draw series old =
     (if series = [] \<or> primeNum (last series) = 0 then old else None)"

text \<open>
  \<open>fetchWindowData\<close>. The result is \<open>None\<close> when the call does not
  return. An error thrown inside its \<open>try\<close> is caught and written to the status
  line.
\<close>

definition fetchWindowData :: "node \<Rightarrow> app_state \<Rightarrow> app_state option" where
  "fetchWindowData nd st =
     (let totalPrime = input_or (windowInput st) 4000;
          chunkSizePrime = input_or (chunkInput st) 200;
          st1 = st\<lparr>windowInput := Some totalPrime, chunkInput := Some chunkSizePrime,
                   blockNumberCalls := Suc (blockNumberCalls st)\<rparr>
      in case blockNumberReply nd (blockNumberCalls st) of
           Inl err \<Rightarrow> Some (st1\<lparr>statusError := Some err\<rparr>)
         | Inr latestPrimeBlock \<Rightarrow>
             let startPrimeBlock =
                   map_option (\<lambda>l. max 0 (num_add (num_sub l totalPrime) 1))
                     latestPrimeBlock
             in (case block_list startPrimeBlock latestPrimeBlock of
                   None \<Rightarrow> None
                 | Some primeNums \<Rightarrow>
                    if primeNums = [] then
                      Some (st1\<lparr>statusError := Some NoPrimeBlocks\<rparr>)
                    else
                      (case fetch_combined (batchReply nd) (concat (map block_requests primeNums))
                              (posts st1) of
                         None \<Rightarrow> None
                       | Some (combinedMap, ps) \<Rightarrow>
                           (case build_series combinedMap primeNums [] of
                              Inl err \<Rightarrow>
                                Some (st1\<lparr>posts := ps, statusError := Some err\<rparr>)
                            | Inr series \<Rightarrow>
                                if series = [] then
                                  Some (st1\<lparr>posts := ps,
                                           statusError := Some NoValidSamples\<rparr>)
                                else
                                  (case updateUIFromSeries series chunkSizePrime of
                                     None \<Rightarrow> None
                                   | Some rows \<Rightarrow>
                                       Some (st1\<lparr>posts := ps, currentSeries := series,
                                                chartRows := rows,
                                                statusError :=
                                                  status_after_draw series
                                                    (statusError st1)\<rparr>))))))"

text \<open>
  The loop of \<open>fetchAndAppendLatest\<close> that pushes the new samples on
  \<open>currentSeries\<close> and counts the complete ones; an exception leaves the loop
  with what was pushed.
\<close>

fun append_samples ::
  "(batch_id \<rightharpoonup> js_value) \<Rightarrow> int list \<Rightarrow> sample list
     \<Rightarrow> nat \<Rightarrow> js_error option \<times> sample list \<times> nat" where
  "append_samples m [] series cnt = (None, series, cnt)"
| "append_samples m (n # ns) series cnt =
     (case build_sample m n of
        Inl err \<Rightarrow> (Some err, series, cnt)
      | Inr s \<Rightarrow>
          append_samples m ns (series @ [s])
            (if truthy (lookup_or_null m (BlockId n Tag_m))
                \<and> truthy (lookup_or_null m (BlockId n Tag_b))
                \<and> truthy (lookup_or_null m (BlockId n Tag_h))
                \<and> dInstant s \<noteq> None \<and> dStar s \<noteq> None
             then Suc cnt else cnt))"

text \<open>
  \<^verbatim>\<open>while (currentSeries.length > totalPrime) currentSeries.shift()\<close>;
  \<open>shift\<close> leaves an empty array empty, so the loop does not end for a negative
  \<open>totalPrime\<close>.
\<close>

partial_function (option) trim_loop :: "sample list \<Rightarrow> int \<Rightarrow>
    sample list option" where
  "trim_loop series totalPrime =
     (if int (length series) > totalPrime then trim_loop (tl series) totalPrime
      else Some series)"

declare trim_loop.simps [code]

text \<open>
  \<open>fetchAndAppendLatest\<close>. An error thrown inside its \<open>try\<close> is only
  logged.
\<close>

definition fetchAndAppendLatest :: "node \<Rightarrow> app_state \<Rightarrow>
    app_state option" where
  "fetchAndAppendLatest nd st =
     (let st1 = st\<lparr>blockNumberCalls := Suc (blockNumberCalls st)\<rparr>
      in case blockNumberReply nd (blockNumberCalls st) of
           Inl err \<Rightarrow> Some st1
         | Inr latestPrimeBlock \<Rightarrow>
             if currentSeries st1 = [] then fetchWindowData nd st1
             else
               let lastPrimeNum = primeNum (last (currentSeries st1))
               in if (case latestPrimeBlock of
                        None \<Rightarrow> False
                      | Some l \<Rightarrow> l \<le> lastPrimeNum)
                  then Some st1
                  else
                    (case block_list (Some (num_add lastPrimeNum 1)) latestPrimeBlock of
                       None \<Rightarrow> None
                     | Some newPrimes \<Rightarrow>
                         if newPrimes = [] then Some st1
                         else
                           let batch = concat (map block_requests newPrimes)
                           in (case (case rpcBatch (batchReply nd) batch
                                             \<lparr>timeout = 120000, retries = 0\<rparr>
                                             (posts st1) of
                                       (Inr m, ps1) \<Rightarrow> Some (m, ps1)
                                     | (Inl err, ps1) \<Rightarrow>
                                         sendBatchWithLimit_or_empty (batchReply nd) batch 2000
                                           \<lparr>timeout = 120000, retries = 0\<rparr> ps1) of
                                 None \<Rightarrow> None
                               | Some (m, ps) \<Rightarrow>
                                   (case append_samples m newPrimes (currentSeries st1)
                                           (autoDetectedPrimes st1) of
                                      (Some err, series, cnt) \<Rightarrow>
                                        Some (st1\<lparr>posts := ps, currentSeries := series,
                                                 autoDetectedPrimes := cnt\<rparr>)
                                    | (None, series, cnt) \<Rightarrow>
                                        (case trim_loop series (input_or (windowInput st1) 4000) of
                                           None \<Rightarrow> None
                                         | Some trimmed \<Rightarrow>
                                             (case updateUIFromSeries trimmed
                                                     (input_or (chunkInput st1) 200) of
                                                None \<Rightarrow> None
                                              | Some rows \<Rightarrow>
                                                  Some (st1\<lparr>posts := ps,
                                                           currentSeries := trimmed,
                                                           autoDetectedPrimes := cnt,
                                                           chartRows := rows,
                                                           statusError :=
                                                             status_after_draw trimmed
                                                               (statusError st1)\<rparr>)))))))"


section \<open>Nodes to run the engine against\<close>

text \<open>
  A transport on which every POST fails, a node that answers every request of a POST with a
  result, and that node behind a transport that drops the POST number \<open>j\<close>.
\<close>

definition dead_network :: "('q, 'i) network" where
  "dead_network k body = Inl TransportError"

definition answers ::
  "('q \<Rightarrow> 'i) \<Rightarrow> ('q \<Rightarrow> js_value) \<Rightarrow> 'q list
     \<Rightarrow> 'i item list" where
  "answers idf answer body = map (\<lambda>q. Item (Some (idf q)) False (answer q)) body"

definition null_result :: "'q \<Rightarrow> js_value" where
  "null_result q = JNull"

definition answering_network ::
  "('q \<Rightarrow> 'i) \<Rightarrow> ('q \<Rightarrow> js_value)
     \<Rightarrow> ('q, 'i) network" where
  "answering_network idf answer k body = Inr (answers idf answer body)"

definition dropping_network ::
  "nat \<Rightarrow> ('q \<Rightarrow> 'i) \<Rightarrow> ('q \<Rightarrow> js_value)
     \<Rightarrow> ('q, 'i) network" where
  "dropping_network j idf answer k body =
     (if k = j then Inl TransportError else answering_network idf answer k body)"

text \<open>
  A node whose latest block number is always \<open>latest\<close>, behind a given
  transport.
\<close>

definition node_at :: "int \<Rightarrow> (request, batch_id) network \<Rightarrow> node" where
  "node_at latest net =
     \<lparr>blockNumberReply = (\<lambda>k. Inr (Some latest)), batchReply = net\<rparr>"

section \<open>The partition and the sum, as the specification words them\<close>

text \<open>
  Consecutive groups of \<open>c\<close> elements, in order, the last one possibly shorter:
  the partition that the chunking loop is compared with.
\<close>

function consecutive_groups :: "nat \<Rightarrow> 'a list \<Rightarrow> 'a list list" where
  "consecutive_groups c xs =
     (if c = 0 \<or> xs = [] then [] else take c xs # consecutive_groups c (drop c xs))"
  by pat_completeness auto
termination
  by (relation "measure (\<lambda>(c, xs). length xs)") auto

declare consecutive_groups.simps [simp del]

text \<open>
  The sum of Decimals as \<open>plus\<close> computes it, from left to right and starting at
  0, and the value that a null entry contributes.
\<close>

definition decimal_sum :: "decimal list \<Rightarrow> decimal" where
  "decimal_sum ds = foldl plus_dec (Decimal_of_int 0) ds"

definition or_zero :: "decimal option \<Rightarrow> decimal" where
  "or_zero v = (case v of None \<Rightarrow> Decimal_of_int 0 | Some d \<Rightarrow> d)"

section \<open>Properties of FixedPointLog\<close>

lemma int_div_less:
  fixes p r k :: int
  assumes "0 < p" "r < k * p"
  shows "r div p < k"
proof (rule ccontr)
  assume "\<not> r div p < k"
  then have "k \<le> r div p" by simp
  then have le: "k * p \<le> (r div p) * p" using assms(1) by (simp add: mult_right_mono)
  have "r = (r div p) * p + r mod p" by simp
  moreover have "0 \<le> r mod p" using assms(1) by simp
  ultimately have "(r div p) * p \<le> r" by linarith
  with le show False using assms(2) by simp
qed

lemma log_loop_bitlen: "1 \<le> temp \<Longrightarrow> log_loop temp c = c + bitlen temp - 1"
proof (induction temp c rule: log_loop.induct)
  case (1 temp c)
  show ?case
  proof (cases "temp > 1")
    case True
    then have h: "1 \<le> bigint_shr temp 1" by (simp add: bigint_shr_def bigint_shl_def)
    have bl: "bitlen temp = bitlen (bigint_shr temp 1) + 1"
      using True by (subst compute_bitlen) (simp add: bigint_shr_def bigint_shl_def)
    have "log_loop temp c = log_loop (bigint_shr temp 1) (c + 1)"
      using True by (subst log_loop.simps) simp
    also have "\<dots> = c + 1 + bitlen (bigint_shr temp 1) - 1" using 1 True h by simp
    finally show ?thesis using bl by simp
  next
    case False
    with 1 have "temp = 1" by simp
    then show ?thesis by (subst log_loop.simps) (simp add: compute_bitlen)
  qed
qed

lemma SCALE_2E64_eq: "SCALE_2E64 = 2 ^ 64"
  by (simp add: SCALE_2E64_def bigint_shl_def)

lemma SCALE_BI_eq: "SCALE_BI = 2 ^ 64"
  by (simp add: SCALE_BI_def bigint_shl_def)

lemma logBigInt_pos:
  assumes pos: "0 < x"
  defines "c \<equiv> bitlen x - 1"
  defines "m \<equiv> ((x - 2 ^ nat c) * 2 ^ 64) div (2 ^ nat c :: int)"
  shows "logBigInt x = Inr (c * 2 ^ 64 + m)" "2 ^ nat c \<le> x" "x < 2 ^ (nat c + 1)"
    "0 \<le> m" "m < 2 ^ 64" "0 \<le> c"
proof -
  show c0: "0 \<le> c"
    using pos bitlen_eq_zero_iff[of x] bitlen_nonneg[of x] by (simp add: c_def)
  then have nc: "nat (bitlen x) = nat c + 1" by (simp add: c_def)
  show b: "2 ^ nat c \<le> x" "x < 2 ^ (nat c + 1)"
    using bitlen_bounds[OF pos] unfolding nc by (simp_all add: c_def)
  have loop: "log_loop x 0 = c" using log_loop_bitlen[of x 0] pos by (simp add: c_def)
  have r0: "0 \<le> (x - 2 ^ nat c) * 2 ^ 64" using b by simp
  have p0: "(0::int) < 2 ^ nat c" by simp
  show m0: "0 \<le> m" unfolding m_def using r0 p0 by (simp add: pos_imp_zdiv_nonneg_iff)
  have "(x - 2 ^ nat c) * 2 ^ 64 < 2 ^ 64 * 2 ^ nat c" using b by simp
  then show m1: "m < 2 ^ 64" unfolding m_def using p0 by (rule int_div_less[rotated])
  have "bigint_div ((x - 2 ^ nat c) * 2 ^ 64) (2 ^ nat c) = Inr m"
    using r0 m0 by (simp add: bigint_div_def m_def sgn_if)
  then show "logBigInt x = Inr (c * 2 ^ 64 + m)"
    using pos loop c0 by (simp add: logBigInt_def Let_def SCALE_2E64_eq bigint_shl_def bindE_def)
qed

text \<open>
  Claim C1. For \<open>x \<le> 0\<close>, \<open>logBigInt\<close> returns 0. For
  \<open>x > 0\<close> it returns \<open>c * 2^64 + m\<close>, where \<open>c\<close> is the
  bit length of \<open>x\<close> less one, so that \<open>2^c \<le> x < 2^(c+1)\<close>, and
  \<open>m = floor ((x - 2^c) * 2^64 / 2^c)\<close> with \<open>0 \<le> m < 2^64\<close>.
  The function is built from integer shifts, a subtraction, a multiplication and a division
  only, and it never raises.
\<close>

theorem logBigInt_spec:
  "(x \<le> 0 \<longrightarrow> logBigInt x = Inr 0) \<and>
   (0 < x \<longrightarrow>
      (let c = bitlen x - 1;
           m = ((x - 2 ^ nat c) * 2 ^ 64) div 2 ^ nat c
       in logBigInt x = Inr (c * 2 ^ 64 + m)
          \<and> 2 ^ nat c \<le> x \<and> x < 2 ^ (nat c + 1)
          \<and> 0 \<le> m \<and> m < 2 ^ 64))"
  using logBigInt_pos[of x] by (simp add: logBigInt_def Let_def)

theorem logBigInt_spec_witness:
  "logBigInt 0 = Inr 0 \<and> logBigInt 100 = Inr (6 * 2 ^ 64 + 10376293541461622784)
   \<and> (2::int) ^ 6 \<le> 100 \<and> (100::int) < 2 ^ 7"
proof -
  have b: "bitlen 100 = 7" by code_simp
  show ?thesis using logBigInt_spec[of 0] logBigInt_spec[of 100] by (simp add: b Let_def)
qed

section \<open>Properties of the decimal rounding\<close>

lemma ndigits_nonneg: "0 \<le> ndigits n"
  by (induction n rule: ndigits.induct) (subst ndigits.simps, simp)

lemma ndigits_upper: "n < 10 ^ nat (ndigits n)"
proof (induction n rule: ndigits.induct)
  case (1 n)
  show ?case
  proof (cases "n \<le> 0")
    case True
    then show ?thesis by (subst ndigits.simps) simp
  next
    case False
    then have ih: "n div 10 < 10 ^ nat (ndigits (n div 10))" using 1 by simp
    have nd: "ndigits n = 1 + ndigits (n div 10)" using False by (subst ndigits.simps) simp
    have "nat (ndigits n) = Suc (nat (ndigits (n div 10)))"
      using ndigits_nonneg[of "n div 10"] by (simp add: nd)
    moreover have "n < 10 * (n div 10 + 1)" by presburger
    moreover have "10 * (n div 10 + 1) \<le> 10 * 10 ^ nat (ndigits (n div 10))"
      using ih by simp
    ultimately show ?thesis by simp
  qed
qed

lemma ndigits_lower: "1 \<le> n \<Longrightarrow> 10 ^ nat (ndigits n - 1) \<le> n"
proof (induction n rule: ndigits.induct)
  case (1 n)
  then have pos: "\<not> n \<le> 0" by simp
  have nd: "ndigits n = 1 + ndigits (n div 10)" using pos by (subst ndigits.simps) simp
  show ?case
  proof (cases "n < 10")
    case True
    then have "n div 10 = 0" using 1(2) by simp
    then have "ndigits n = 1" unfolding nd by (subst ndigits.simps) simp
    then show ?thesis using 1(2) by simp
  next
    case False
    then have ge: "1 \<le> n div 10" by presburger
    then have ih: "10 ^ nat (ndigits (n div 10) - 1) \<le> n div 10" using 1(1) pos by simp
    have "1 \<le> ndigits (n div 10)"
      using ge by (subst ndigits.simps) (simp add: ndigits_nonneg)
    then have "nat (ndigits n - 1) = Suc (nat (ndigits (n div 10) - 1))"
      by (simp add: nd)
    moreover have "10 * (n div 10) \<le> n" by presburger
    ultimately show ?thesis using ih by simp
  qed
qed

lemma pow10_powi: "pow10 e = 10 powi e"
  by (simp add: pow10_def power_int_def field_simps)

lemma pow10_pos: "0 < pow10 e"
  by (simp add: pow10_powi)

lemma exponent10_lower:
  assumes "0 < q"
  shows "pow10 (exponent10 q) \<le> q"
proof -
  obtain a b where ab: "quotient_of q = (a, b)" by (cases "quotient_of q")
  have b0: "0 < b" using quotient_of_denom_pos[OF ab] .
  have q: "q = of_int a / of_int b" using quotient_of_div[OF ab] .
  have a0: "0 < a" using assms b0 unfolding q by (simp add: zero_less_divide_iff)
  show ?thesis
  proof (cases "b \<le> a")
    case True
    then have "0 < a div b" using b0 by (simp add: pos_imp_zdiv_pos_iff)
    then have n1: "1 \<le> a div b" by simp
    have e: "exponent10 q = ndigits (a div b) - 1"
      using True by (simp add: exponent10_def ab)
    have e0: "0 \<le> ndigits (a div b) - 1"
      using n1 by (subst ndigits.simps) (simp add: ndigits_nonneg)
    have "(10::int) ^ nat (ndigits (a div b) - 1) \<le> a div b" using ndigits_lower[OF n1] .
    then have "(of_int (10 ^ nat (ndigits (a div b) - 1)) :: rat) \<le> of_int (a div b)"
      by (simp only: of_int_le_iff)
    also have "\<dots> \<le> of_int a / of_int b"
    proof -
      have "(a div b) * b \<le> a" using b0 by (metis div_mult_mod_eq le_add_same_cancel1
          pos_mod_sign)
      then have "(of_int ((a div b) * b) :: rat) \<le> of_int a" by (simp only: of_int_le_iff)
      then show ?thesis using b0 by (simp add: pos_le_divide_eq)
    qed
    finally show ?thesis using e e0 by (simp add: pow10_def q)
  next
    case False
    define c where "c = (b + a - 1) div a"
    define k where "k = ndigits (c - 1)"
    have e: "exponent10 q = - k" using False by (simp add: exponent10_def ab c_def k_def)
    have k0: "0 \<le> k" by (simp add: k_def ndigits_nonneg)
    have "c - 1 < 10 ^ nat k" unfolding k_def by (rule ndigits_upper)
    then have c10: "c \<le> 10 ^ nat k" by simp
    have "b + a - 1 < (c + 1) * a"
    proof -
      have "b + a - 1 = c * a + (b + a - 1) mod a" by (simp add: c_def)
      moreover have "(b + a - 1) mod a < a" using a0 by simp
      ultimately show ?thesis by (simp add: algebra_simps)
    qed
    then have "b \<le> c * a" by (simp add: algebra_simps)
    also have "\<dots> \<le> 10 ^ nat k * a" using c10 a0 by (simp add: mult_right_mono)
    finally have "(of_int b :: rat) \<le> of_int (10 ^ nat k * a)" by (simp only: of_int_le_iff)
    then have "(1::rat) / 10 ^ nat k \<le> of_int a / of_int b"
      using b0 by (simp add: field_simps)
    moreover have "pow10 (- k) = 1 / 10 ^ nat k"
      using k0 by (cases "k = 0") (simp_all add: pow10_def)
    ultimately have "pow10 (exponent10 q) \<le> of_int a / of_int b" by (simp add: e)
    also have "of_int a / of_int b = q" by (rule q[symmetric])
    finally show ?thesis .
  qed
qed

lemma round_sig_pos:
  assumes "0 < q"
  shows "0 < round_sig q"
proof -
  define e where "e = exponent10 q"
  define ulp where "ulp = pow10 (e - int DECIMAL_PREC + 1)"
  have u0: "0 < ulp" by (simp add: ulp_def pow10_pos)
  have "ulp \<le> pow10 e"
    unfolding ulp_def pow10_powi by (rule power_int_increasing) (simp_all add: DECIMAL_PREC_def)
  also have "\<dots> \<le> q" unfolding e_def by (rule exponent10_lower[OF assms])
  finally have "1 \<le> q / ulp" using u0 by (simp add: pos_le_divide_eq)
  then have "1 \<le> \<lfloor>q / ulp + 1 / 2\<rfloor>" by (simp add: le_floor_iff)
  then have "0 < (of_int \<lfloor>q / ulp + 1 / 2\<rfloor> :: rat) * ulp" using u0 by simp
  then show ?thesis using assms by (simp add: round_sig_def Let_def e_def ulp_def)
qed

lemma round_sig_neg:
  assumes "q < 0"
  shows "round_sig q < 0"
proof -
  have "round_sig q = - round_sig (- q)" using assms by (simp add: round_sig_def Let_def)
  moreover have "0 < round_sig (- q)" using assms by (intro round_sig_pos) simp
  ultimately show ?thesis by simp
qed

lemma round_sig_zero: "round_sig 0 = 0"
  by (simp add: round_sig_def)

section \<open>Properties of ConsensusMetricCalculator\<close>

lemma hexToBigInt_Inr: "\<exists>k. hexToBigInt v = Inr k"
  by (cases "BigInt_ctor (hex_operand v)") (simp_all add: hexToBigInt_def try_catch_def)

lemma hexToBigInt_falsy: "\<not> truthy v \<Longrightarrow> hexToBigInt v = Inr 0"
  by (simp add: hexToBigInt_def)



lemma logBigInt_Inr: "\<exists>d. logBigInt x = Inr d"
proof (cases "0 < x")
  case True
  then show ?thesis using logBigInt_pos(1)[of x] by blast
next
  case False
  then show ?thesis by (simp add: logBigInt_def)
qed

lemma computeExactDeltaK_guard:
  assumes "hexToBigInt b = Inr xb" "hexToBigInt m = Inr md" "xb = 0 \<or> md \<le> 0"
  shows "computeExactDeltaK b m =
    Inr \<lparr>res_ratio = Decimal_of_int 1, res_deltaK = Decimal_of_int 0,
        kQuaiIncrease = False\<rparr>"
  using assms by (auto simp: computeExactDeltaK_def computeExactDeltaK_try_def bindE_def
      try_catch_def)

lemma computeExactDeltaK_value:
  assumes "hexToBigInt b = Inr xb" "hexToBigInt m = Inr md" "xb \<noteq> 0" "0 < md"
    and "logBigInt md = Inr d2"
  shows "computeExactDeltaK b m =
    Inr \<lparr>res_ratio = div_by (Decimal_of_int (xb * d2)) (2 ^ 64 * md),
         res_deltaK = div_by (Decimal_of_int (xb * d2 - 2 ^ 64 * md)) (2 ^ 64 * md * 1000),
         kQuaiIncrease = (0 < xb * d2 - 2 ^ 64 * md)\<rparr>"
  using assms
  by (simp add: computeExactDeltaK_def computeExactDeltaK_try_def bindE_def try_catch_def
      Let_def SCALE_BI_eq ONE_OVER_ALPHA_BI_def)

lemma computeExactDeltaK_Inr: "\<exists>r. computeExactDeltaK b m = Inr r"
  by (cases "computeExactDeltaK_try b m") (simp_all add: computeExactDeltaK_def try_catch_def)

lemma computeRatioAndDeltaKFromNormHex_Inr: "\<exists>r. computeRatioAndDeltaKFromNormHex b m =
    Inr r"
  by (cases "computeRatioAndDeltaKFromNormHex_try b m")
     (simp_all add: computeRatioAndDeltaKFromNormHex_def try_catch_def)


text \<open>
  Claim C9. When either input is missing (a falsy value, or one that decodes to zero) or the
  miner difficulty is not positive, \<open>computeExactDeltaK\<close> returns
  \<open>{ratio = 1, deltaK = 0, kQuaiIncrease = false}\<close>; so it does for
  \<open>0x0\<close> and \<open>0x64\<close>.
\<close>

theorem computeExactDeltaK_neutral:
  "(\<not> truthy b \<or> \<not> truthy m \<or> hexToBigInt b = Inr 0
      \<or> (\<exists>md. hexToBigInt m = Inr md \<and> md \<le> 0)
      \<longrightarrow> computeExactDeltaK b m =
            Inr \<lparr>res_ratio = Finite 1, res_deltaK = Finite 0, kQuaiIncrease = False\<rparr>)
   \<and> computeExactDeltaK (JStr (js ''0x0'')) (JStr (js ''0x64'')) =
        Inr \<lparr>res_ratio = Finite 1, res_deltaK = Finite 0, kQuaiIncrease = False\<rparr>"
proof (intro conjI impI)
  assume h: "\<not> truthy b \<or> \<not> truthy m \<or> hexToBigInt b = Inr 0
     \<or> (\<exists>md. hexToBigInt m = Inr md \<and> md \<le> 0)"
  obtain xb md where d: "hexToBigInt b = Inr xb" "hexToBigInt m = Inr md"
    using hexToBigInt_Inr by blast
  have "xb = 0 \<or> md \<le> 0" using h d hexToBigInt_falsy[of b] hexToBigInt_falsy[of m] by auto
  then show "computeExactDeltaK b m =
      Inr \<lparr>res_ratio = Finite 1, res_deltaK = Finite 0, kQuaiIncrease = False\<rparr>"
    using computeExactDeltaK_guard[OF d] by (simp add: Decimal_of_int_def)
next
  have "hexToBigInt (JStr (js ''0x0'')) = Inr 0" by code_simp
  moreover obtain md where "hexToBigInt (JStr (js ''0x64'')) = Inr md"
    using hexToBigInt_Inr by blast
  ultimately show "computeExactDeltaK (JStr (js ''0x0'')) (JStr (js ''0x64'')) =
      Inr \<lparr>res_ratio = Finite 1, res_deltaK = Finite 0, kQuaiIncrease = False\<rparr>"
    using computeExactDeltaK_guard[of "JStr (js ''0x0'')" 0 "JStr (js ''0x64'')" md]
    by (simp add: Decimal_of_int_def)
qed

theorem computeExactDeltaK_neutral_witness:
  "hexToBigInt (JStr (js ''0x64'')) = Inr 100
   \<and> hexToBigInt (JStr (js ''0x0'')) = Inr 0
   \<and> computeExactDeltaK (JStr (js ''0x0'')) (JStr (js ''0x64'')) =
        Inr \<lparr>res_ratio = Finite 1, res_deltaK = Finite 0, kQuaiIncrease = False\<rparr>
   \<and> computeExactDeltaK (JStr (js ''0x10'')) JNull =
        Inr \<lparr>res_ratio = Finite 1, res_deltaK = Finite 0, kQuaiIncrease = False\<rparr>"
proof -
  have a: "hexToBigInt (JStr (js ''0x64'')) = Inr 100" by code_simp
  have b: "hexToBigInt (JStr (js ''0x0'')) = Inr 0" by code_simp
  show ?thesis
    using computeExactDeltaK_neutral[of "JStr (js ''0x0'')" "JStr (js ''0x64'')"]
      computeExactDeltaK_neutral[of "JStr (js ''0x10'')" JNull] a b
    by simp
qed

text \<open>
  Claim C2. With a best difficulty that decodes to a nonzero \<open>xb\<close> and a miner
  difficulty that decodes to \<open>md > 0\<close>, let
  \<open>num = xb * log2Fixed md - 2^64 * md\<close>. Then \<open>deltaK\<close> is the
  finite Decimal \<open>num / (2^64 * md * 1000)\<close> rounded to 40 significant digits,
  it is negative, zero or positive as \<open>num\<close> is, and
  \<open>kQuaiIncrease\<close> holds exactly when \<open>num > 0\<close>.
\<close>

theorem computeExactDeltaK_sign:
  assumes "hexToBigInt b = Inr xb" and "hexToBigInt m = Inr md" and "xb \<noteq> 0" and "0 < md"
  shows "\<exists>d2 r q.
      logBigInt md = Inr d2
      \<and> computeExactDeltaK b m = Inr \<lparr>res_ratio = r, res_deltaK = Finite q,
             kQuaiIncrease = (0 < xb * d2 - 2 ^ 64 * md)\<rparr>
      \<and> q = round_sig (of_int (xb * d2 - 2 ^ 64 * md) / of_int (2 ^ 64 * md * 1000))
      \<and> (xb * d2 - 2 ^ 64 * md < 0 \<longrightarrow> q < 0
          \<and> \<not> (0 < xb * d2 - 2 ^ 64 * md))
      \<and> (0 < xb * d2 - 2 ^ 64 * md \<longrightarrow> 0 < q)
      \<and> (xb * d2 - 2 ^ 64 * md = 0 \<longrightarrow> q = 0)"
proof -
  obtain d2 where d2: "logBigInt md = Inr d2" using logBigInt_Inr by blast
  define num where "num = xb * d2 - 2 ^ 64 * md"
  define den where "den = 2 ^ 64 * md * 1000"
  define q where "q = round_sig (of_int num / of_int den)"
  have den0: "0 < den" using assms(4) by (simp add: den_def)
  then have denr: "(0::rat) < of_int den" by simp
  have v: "computeExactDeltaK b m =
      Inr \<lparr>res_ratio = div_by (Decimal_of_int (xb * d2)) (2 ^ 64 * md),
          res_deltaK = Finite q,
           kQuaiIncrease = (0 < num)\<rparr>"
    using computeExactDeltaK_value[OF assms d2] den0
    by (simp add: Decimal_of_int_def q_def num_def den_def)
  have neg: "num < 0 \<Longrightarrow> q < 0"
    unfolding q_def using denr by (intro round_sig_neg) (simp add: divide_neg_pos)
  have pos: "0 < num \<Longrightarrow> 0 < q"
    unfolding q_def using denr by (intro round_sig_pos) simp
  have zero: "num = 0 \<Longrightarrow> q = 0"
    unfolding q_def by (simp add: round_sig_zero)
  show ?thesis
  proof (intro exI conjI)
    show "logBigInt md = Inr d2" by (rule d2)
    show "computeExactDeltaK b m =
        Inr \<lparr>res_ratio = div_by (Decimal_of_int (xb * d2)) (2 ^ 64 * md),
            res_deltaK = Finite q,
             kQuaiIncrease = (0 < xb * d2 - 2 ^ 64 * md)\<rparr>"
      using v by (simp add: num_def)
    show "q = round_sig (of_int (xb * d2 - 2 ^ 64 * md) / of_int (2 ^ 64 * md * 1000))"
      by (simp add: q_def num_def den_def)
    show "xb * d2 - 2 ^ 64 * md < 0 \<longrightarrow> q < 0
        \<and> \<not> (0 < xb * d2 - 2 ^ 64 * md)"
      using neg by (simp add: num_def)
    show "0 < xb * d2 - 2 ^ 64 * md \<longrightarrow> 0 < q" using pos by (simp add: num_def)
    show "xb * d2 - 2 ^ 64 * md = 0 \<longrightarrow> q = 0" using zero by (simp add: num_def)
  qed
qed

theorem computeExactDeltaK_sign_witness:
  "(hexToBigInt (JStr (js ''0x1'')) = Inr 1 \<and> hexToBigInt (JStr (js ''0x64'')) = Inr 100
   \<and> (\<exists>r q. computeExactDeltaK (JStr (js ''0x1'')) (JStr (js ''0x64'')) =
          Inr \<lparr>res_ratio = r, res_deltaK = Finite q, kQuaiIncrease = False\<rparr>
              \<and> q < 0))
   \<and> (hexToBigInt (JStr (js ''0x10'')) = Inr 16
       \<and> hexToBigInt (JStr (js ''0x64'')) = Inr 100
       \<and> (\<exists>r q. computeExactDeltaK (JStr (js ''0x10'')) (JStr (js ''0x64'')) =
              Inr \<lparr>res_ratio = r, res_deltaK = Finite q, kQuaiIncrease = True\<rparr>
                  \<and> 0 < q)
       \<and> hexToBigInt (JStr (js ''0x2'')) = Inr 2
       \<and> (\<exists>r. computeExactDeltaK (JStr (js ''0x2'')) (JStr (js ''0x2'')) =
              Inr \<lparr>res_ratio = r, res_deltaK = Finite 0, kQuaiIncrease = False\<rparr>))"
proof -
  have first: "hexToBigInt (JStr (js ''0x1'')) = Inr 1
      \<and> hexToBigInt (JStr (js ''0x64'')) = Inr 100
   \<and> (\<exists>r q. computeExactDeltaK (JStr (js ''0x1'')) (JStr (js ''0x64'')) =
          Inr \<lparr>res_ratio = r, res_deltaK = Finite q, kQuaiIncrease = False\<rparr>
              \<and> q < 0)"
  proof -
    have a: "hexToBigInt (JStr (js ''0x1'')) = Inr 1" by code_simp
    have b: "hexToBigInt (JStr (js ''0x64'')) = Inr 100" by code_simp
    have l: "logBigInt 100 = Inr 121056757983718932480" by code_simp
    from computeExactDeltaK_sign[OF a b] obtain d2 r q where
      "logBigInt 100 = Inr d2"
      "computeExactDeltaK (JStr (js ''0x1'')) (JStr (js ''0x64'')) =
         Inr \<lparr>res_ratio = r, res_deltaK = Finite q,
             kQuaiIncrease = (0 < 1 * d2 - 2 ^ 64 * 100)\<rparr>"
      "1 * d2 - 2 ^ 64 * 100 < 0 \<longrightarrow> q < 0 \<and> \<not> (0 < 1 * d2 - 2 ^ 64 * 100)"
      by auto
    then show ?thesis using a b l by auto
  qed
  have second: "hexToBigInt (JStr (js ''0x10'')) = Inr 16
      \<and> hexToBigInt (JStr (js ''0x64'')) = Inr 100
   \<and> (\<exists>r q. computeExactDeltaK (JStr (js ''0x10'')) (JStr (js ''0x64'')) =
          Inr \<lparr>res_ratio = r, res_deltaK = Finite q, kQuaiIncrease = True\<rparr>
              \<and> 0 < q)
   \<and> hexToBigInt (JStr (js ''0x2'')) = Inr 2
   \<and> (\<exists>r. computeExactDeltaK (JStr (js ''0x2'')) (JStr (js ''0x2'')) =
          Inr \<lparr>res_ratio = r, res_deltaK = Finite 0, kQuaiIncrease = False\<rparr>)"
  proof -
    have a: "hexToBigInt (JStr (js ''0x10'')) = Inr 16" by code_simp
    have b: "hexToBigInt (JStr (js ''0x64'')) = Inr 100" by code_simp
    have c: "hexToBigInt (JStr (js ''0x2'')) = Inr 2" by code_simp
    have l: "logBigInt 100 = Inr 121056757983718932480" by code_simp
    have l2: "logBigInt 2 = Inr 18446744073709551616" by code_simp
    from computeExactDeltaK_sign[OF a b] obtain d2 r q where
      "logBigInt 100 = Inr d2"
      "computeExactDeltaK (JStr (js ''0x10'')) (JStr (js ''0x64'')) =
         Inr \<lparr>res_ratio = r, res_deltaK = Finite q,
             kQuaiIncrease = (0 < 16 * d2 - 2 ^ 64 * 100)\<rparr>"
      "0 < 16 * d2 - 2 ^ 64 * 100 \<longrightarrow> 0 < q"
      by auto
    then have p: "\<exists>r q. computeExactDeltaK (JStr (js ''0x10'')) (JStr (js ''0x64'')) =
            Inr \<lparr>res_ratio = r, res_deltaK = Finite q, kQuaiIncrease = True\<rparr>
                \<and> 0 < q"
      using l by auto
    from computeExactDeltaK_sign[OF c c] obtain d2 r q where
      "logBigInt 2 = Inr d2"
      "computeExactDeltaK (JStr (js ''0x2'')) (JStr (js ''0x2'')) =
         Inr \<lparr>res_ratio = r, res_deltaK = Finite q,
             kQuaiIncrease = (0 < 2 * d2 - 2 ^ 64 * 2)\<rparr>"
      "2 * d2 - 2 ^ 64 * 2 = 0 \<longrightarrow> q = 0"
      by auto
    then have z: "\<exists>r. computeExactDeltaK (JStr (js ''0x2'')) (JStr (js ''0x2'')) =
            Inr \<lparr>res_ratio = r, res_deltaK = Finite 0, kQuaiIncrease = False\<rparr>"
      using l2 by auto
    show ?thesis using a b c p z by blast
  qed
  show ?thesis by (rule conjI[OF first second])
qed

section \<open>Properties of the sample loop\<close>

lemma or_null_idem: "or_null (or_null v) = or_null v"
  by (simp add: or_null_def)

lemma lookup_or_null_idem: "or_null (lookup_or_null m k) = lookup_or_null m k"
  by (simp add: lookup_or_null_def or_null_idem)

lemma truthy_or_null: "truthy (or_null v) = truthy v"
  by (simp add: or_null_def)

lemma parsed_difficulty_eq:
  assumes "hexToBigInt raw = Inr k"
  shows "parsed_difficulty raw =
    Inr (if truthy raw \<and> 0 < k then Some (Finite (of_int k)) else None)"
  using assms
  by (auto simp: parsed_difficulty_def try_catch_def bindE_def toDecimalFromBigInt_def
      Decimal_of_int_def)


lemma build_sample_Inr:
  fixes m n
  defines "minerRaw \<equiv> lookup_or_null m (BlockId n Tag_m)"
    and "bestRaw \<equiv> lookup_or_null m (BlockId n Tag_b)"
    and "hdr \<equiv> lookup_or_null m (BlockId n Tag_h)"
  obtains s where "build_sample m n = Inr s"
    and "primeNum s = n" and "header s = hdr" and "convInfo s = JNull"
    and "parsed_difficulty minerRaw = Inr (dInstant s)"
    and "parsed_difficulty bestRaw = Inr (dStar s)"
    and "kQuai s = (if truthy hdr \<and> truthy (get_prop hdr (js ''exchangeRate''))
                    then get_prop hdr (js ''exchangeRate'') else JNull)"
    and "formula_used minerRaw bestRaw hdr = Exact \<Longrightarrow>
           \<exists>r. computeExactDeltaK bestRaw (get_prop hdr (js ''minerDifficulty'')) = Inr r
              \<and> ratio s = res_ratio r \<and> deltaK s = res_deltaK r"
    and "formula_used minerRaw bestRaw hdr = Approximate \<Longrightarrow>
           \<exists>r. computeRatioAndDeltaKFromNormHex bestRaw minerRaw = Inr r
              \<and> ratio s = apx_ratio r \<and> deltaK s = apx_deltaK r"
    and "formula_used minerRaw bestRaw hdr = NeutralDefault \<Longrightarrow>
           ratio s = Decimal_of_int 1 \<and> deltaK s = Decimal_of_int 0"
proof -
  let ?mr = "lookup_or_null m (BlockId n Tag_m)"
  let ?br = "lookup_or_null m (BlockId n Tag_b)"
  let ?h = "lookup_or_null m (BlockId n Tag_h)"
  obtain di where di: "parsed_difficulty ?mr = Inr di"
    using parsed_difficulty_eq hexToBigInt_Inr by metis
  obtain ds where ds: "parsed_difficulty ?br = Inr ds"
    using parsed_difficulty_eq hexToBigInt_Inr by metis
  obtain re where re: "computeExactDeltaK ?br (get_prop ?h (js ''minerDifficulty'')) = Inr re"
    using computeExactDeltaK_Inr by blast
  obtain ra where ra: "computeRatioAndDeltaKFromNormHex ?br ?mr = Inr ra"
    using computeRatioAndDeltaKFromNormHex_Inr by blast
  define rd where "rd = (case formula_used ?mr ?br ?h of
       Exact \<Rightarrow> (res_ratio re, res_deltaK re)
     | Approximate \<Rightarrow> (apx_ratio ra, apx_deltaK ra)
     | NeutralDefault \<Rightarrow> (Decimal_of_int 1, Decimal_of_int 0))"
  define s where "s = \<lparr>primeNum = n, header = ?h, dInstant = di, dStar = ds,
      deltaK = snd rd, ratio = fst rd, convInfo = JNull,
      kQuai = (if truthy ?h \<and> truthy (get_prop ?h (js ''exchangeRate''))
               then get_prop ?h (js ''exchangeRate'') else JNull)\<rparr>"
  have "build_sample m n = Inr s"
    by (cases "formula_used ?mr ?br ?h")
       (simp_all add: build_sample_def Let_def di ds bindE_def re ra s_def rd_def
          lookup_or_null_idem)
  then show ?thesis
    by (rule that)
       (auto simp: s_def rd_def di ds re ra minerRaw_def bestRaw_def hdr_def)
qed

lemma build_sample_projr: "build_sample m n = Inr (projr (build_sample m n))"
  using build_sample_Inr[of m n] by (metis sum.sel(2))

lemma primeNum_build_sample: "primeNum (projr (build_sample m n)) = n"
  using build_sample_Inr[of m n] by (metis sum.sel(2))

lemma build_series_eq:
  "build_series m ns acc = Inr (acc @ map (\<lambda>n. projr (build_sample m n)) ns)"
proof (induction ns arbitrary: acc)
  case Nil
  show ?case by simp
next
  case (Cons n ns)
  obtain s where s: "build_sample m n = Inr s" using build_sample_projr by blast
  have "build_series m (n # ns) acc = build_series m ns (acc @ [projr (build_sample m n)])"
    by (simp add: bindE_def s)
  then show ?case by (simp add: Cons)
qed











section \<open>Properties of ChunkAggregator\<close>

lemma js_slice_window:
  assumes "0 \<le> i" "0 < c"
  shows "js_slice xs i (i + c) = take (nat c) (drop (nat i) xs)"
proof -
  have "take (nat (min (i + c) (int (length xs)) - min i (int (length xs)))) (drop (nat (min i
      (int (length xs)))) xs)
      = take (nat c) (drop (nat i) xs)"
  proof (cases "i \<le> int (length xs)")
    case True
    then have m: "min i (int (length xs)) = i" by simp
    show ?thesis
    proof (cases "i + c \<le> int (length xs)")
      case True
      then show ?thesis using m by simp
    next
      case False
      then have "min (i + c) (int (length xs)) = int (length xs)" by simp
      moreover have "length (drop (nat i) xs) \<le> nat c" using False assms by simp
      moreover have "length (drop (nat i) xs) \<le> nat (int (length xs) - i)" using assms by simp
      ultimately show ?thesis using m by simp
    qed
  next
    case False
    then show ?thesis using assms by simp
  qed
  then show ?thesis using assms by (simp add: js_slice_def Let_def)
qed

lemma concat_consecutive_groups: "0 < c \<Longrightarrow> concat (consecutive_groups c xs) = xs"
proof (induction c xs rule: consecutive_groups.induct)
  case (1 c xs)
  show ?case
  proof (cases "xs = []")
    case True
    then show ?thesis by (subst consecutive_groups.simps) simp
  next
    case False
    then show ?thesis using 1 by (subst consecutive_groups.simps) simp
  qed
qed

lemma ceil_div_step:
  fixes c n :: nat
  assumes "0 < c" "0 < n"
  shows "(n + c - 1) div c = Suc ((n - c + c - 1) div c)"
proof -
  obtain k where k: "n = Suc k" using assms(2) by (cases n) auto
  have l: "(n + c - 1) div c = Suc (k div c)"
  proof -
    have "n + c - 1 = k + c" by (simp add: k)
    then have "(n + c - 1) div c = (k + c) div c" by (rule arg_cong)
    also have "\<dots> = Suc (k div c)" using assms(1) by simp
    finally show ?thesis .
  qed
  have r: "(n - c + c - 1) div c = k div c"
  proof (cases "c \<le> n")
    case True
    then have "n - c + c - 1 = k" by (simp add: k)
    then show ?thesis by (rule arg_cong)
  next
    case False
    then have "k < c" "n - c + c - 1 = c - 1" by (simp_all add: k)
    then show ?thesis using assms(1) by simp
  qed
  show ?thesis unfolding l r ..
qed

lemma length_consecutive_groups:
  "0 < c \<Longrightarrow> length (consecutive_groups c xs) = (length xs + c - 1) div c"
proof (induction c xs rule: consecutive_groups.induct)
  case (1 c xs)
  show ?case
  proof (cases "xs = []")
    case True
    have "consecutive_groups c xs = []" using True by (subst consecutive_groups.simps) simp
    moreover have "(length xs + c - 1) div c = 0" using True 1(2) by simp
    ultimately show ?thesis by simp
  next
    case False
    have eq: "consecutive_groups c xs = take c xs # consecutive_groups c (drop c xs)"
      using False 1(2) by (subst consecutive_groups.simps) simp
    have ih: "length (consecutive_groups c (drop c xs)) = (length (drop c xs) + c - 1) div c"
      using 1 False by simp
    have "length (consecutive_groups c xs) = Suc ((length xs - c + c - 1) div c)"
      unfolding eq using ih by simp
    also have "\<dots> = (length xs + c - 1) div c"
      using ceil_div_step[of c "length xs"] 1(2) False by simp
    finally show ?thesis .
  qed
qed

lemma consecutive_groups_bounds:
  "g \<in> set (consecutive_groups c xs) \<Longrightarrow> g \<noteq> [] \<and> length g \<le> c"
proof (induction c xs rule: consecutive_groups.induct)
  case (1 c xs)
  show ?case
  proof (cases "c = 0 \<or> xs = []")
    case True
    then show ?thesis using 1(2) by (subst (asm) consecutive_groups.simps) simp
  next
    case False
    then have "g = take c xs \<or> g \<in> set (consecutive_groups c (drop c xs))"
      using 1(2) by (subst (asm) consecutive_groups.simps) simp
    then show ?thesis using 1(1) False by auto
  qed
qed

lemma consecutive_groups_full:
  "g \<in> set (butlast (consecutive_groups c xs)) \<Longrightarrow> length g = c"
proof (induction c xs rule: consecutive_groups.induct)
  case (1 c xs)
  show ?case
  proof (cases "c = 0 \<or> xs = []")
    case True
    then show ?thesis using 1(2) by (subst (asm) consecutive_groups.simps) simp
  next
    case False
    have eq: "consecutive_groups c xs = take c xs # consecutive_groups c (drop c xs)"
      using False by (subst consecutive_groups.simps) simp
    show ?thesis
    proof (cases "consecutive_groups c (drop c xs) = []")
      case True
      then show ?thesis using 1(2) eq by simp
    next
      case ne: False
      then have "drop c xs \<noteq> []" by (subst (asm) consecutive_groups.simps) auto
      then have "length (take c xs) = c" by simp
      moreover have "g = take c xs \<or> g \<in> set (butlast (consecutive_groups c (drop c xs)))"
        using 1(2) eq ne by simp
      ultimately show ?thesis using 1(1) False by auto
    qed
  qed
qed

lemma chunk_row_of_nonempty:
  assumes "g \<noteq> []"
  shows "chunk_row_of g =
    Some \<lparr>firstPrime = primeNum (hd g), lastPrime = primeNum (last g),
          avgD = avgDec (map dInstant g), avgDStar = avgDec (map dStar g),
          avgDk = avgDec (map (\<lambda>s. Some (deltaK s)) g)\<rparr>"
  using assms by (cases g) simp_all

lemma foldl_or_zero:
  "foldl (\<lambda>sum v. case v of Some d \<Rightarrow> plus_dec sum d
      | None \<Rightarrow> plus_dec sum (Decimal_of_int 0)) a arr
   = foldl plus_dec a (map or_zero arr)"
  by (induction arr arbitrary: a) (simp_all add: or_zero_def split: option.splits)

lemma avgDec_nonempty:
  "arr \<noteq> [] \<Longrightarrow> avgDec arr =
      div_by (decimal_sum (map or_zero arr)) (int (length arr))"
  by (simp add: avgDec_def decimal_sum_def foldl_or_zero)

lemma chunk_loop_groups:
  assumes c: "0 < c"
  shows "0 \<le> i \<Longrightarrow> chunk_loop series c i rows =
    Some (rows @ map (\<lambda>g. the (chunk_row_of g)) (consecutive_groups (nat c) (drop (nat i)
        series)))"
proof (induction "length series - nat i" arbitrary: i rows rule: less_induct)
  case less
  show ?case
  proof (cases "i < int (length series)")
    case False
    then have "drop (nat i) series = []" by simp
    then have "consecutive_groups (nat c) (drop (nat i) series) = []"
      by (subst consecutive_groups.simps) simp
    then show ?thesis using False by (subst chunk_loop.simps) simp
  next
    case True
    let ?g = "take (nat c) (drop (nat i) series)"
    have ne: "drop (nat i) series \<noteq> []" using True less.prems by simp
    then have gne: "?g \<noteq> []" using c by simp
    obtain row where row: "chunk_row_of ?g = Some row"
      using chunk_row_of_nonempty[OF gne] by blast
    have sl: "js_slice series i (i + c) = ?g" using js_slice_window[OF less.prems c] .
    have dr: "drop (nat (i + c)) series = drop (nat c) (drop (nat i) series)"
      using less.prems c by (simp add: nat_add_distrib add.commute)
    have "length series - nat (i + c) < length series - nat i"
      using True less.prems c by (simp add: nat_add_distrib)
    then have ih: "chunk_loop series c (i + c) (rows @ [row]) =
        Some ((rows @ [row]) @ map (\<lambda>g. the (chunk_row_of g))
               (consecutive_groups (nat c) (drop (nat (i + c)) series)))"
      using less.hyps[of "i + c" "rows @ [row]"] less.prems c by simp
    have gr: "consecutive_groups (nat c) (drop (nat i) series) =
        ?g # consecutive_groups (nat c) (drop (nat c) (drop (nat i) series))"
      using ne c by (subst consecutive_groups.simps) simp
    have "chunk_loop series c i rows = chunk_loop series c (i + c) (rows @ [row])"
      using True by (subst chunk_loop.simps) (simp add: sl row)
    then show ?thesis unfolding ih gr dr by (simp add: row)
  qed
qed

lemma updateUIFromSeries_groups:
  assumes "0 < c"
  shows "updateUIFromSeries series c =
    Some (map (\<lambda>g. the (chunk_row_of g)) (consecutive_groups (nat c) series))"
  using chunk_loop_groups[OF assms, of 0 series "[]"] by (simp add: updateUIFromSeries_def)

text \<open>
  Claim C8, as amended. For \<open>chunkSize > 0\<close> the chunking loop of
  \<open>updateUIFromSeries\<close> returns one row per group of the partition of the series
  into consecutive groups of \<open>chunkSize\<close> samples, in order, only the last group
  possibly shorter; 4000 samples in chunks of 200 give 20 rows. The row of a group is
  labelled with its first and last block, and each of its averages is the Decimal sum of the
  group's values, a null counting as 0, divided by the number of samples of the group: the
  sum is accumulated from left to right, and every addition and the division round to 40
  significant digits (so it is not the exact sum). The series is a value that the loop only
  reads.
\<close>

theorem updateUIFromSeries_partition:
  assumes "0 < c"
  shows "\<exists>rows. updateUIFromSeries series c = Some rows
    \<and> map Some rows = map chunk_row_of (consecutive_groups (nat c) series)
    \<and> concat (consecutive_groups (nat c) series) = series
    \<and> length rows = (length series + nat c - 1) div nat c
    \<and> (length series = 4000 \<and> c = 200 \<longrightarrow> length rows = 20)
    \<and> (\<forall>g \<in> set (butlast (consecutive_groups (nat c) series)). length g = nat c)
    \<and> (\<forall>g \<in> set (consecutive_groups (nat c) series).
          g \<noteq> [] \<and> length g \<le> nat c
          \<and> chunk_row_of g =
              Some \<lparr>firstPrime = primeNum (hd g), lastPrime = primeNum (last g),
                    avgD = div_by (decimal_sum (map (\<lambda>s. or_zero (dInstant s)) g))
                             (int (length g)),
                    avgDStar = div_by (decimal_sum (map (\<lambda>s. or_zero (dStar s)) g)) (int
                        (length g)),
                    avgDk = div_by (decimal_sum (map deltaK g)) (int (length g))\<rparr>)"
proof -
  let ?gs = "consecutive_groups (nat c) series"
  let ?rows = "map (\<lambda>g. the (chunk_row_of g)) ?gs"
  have c: "0 < nat c" using assms by simp
  have ne: "\<And>g. g \<in> set ?gs \<Longrightarrow> g \<noteq> [] \<and> length g \<le> nat c"
    by (rule consecutive_groups_bounds)
  have row: "chunk_row_of g =
      Some \<lparr>firstPrime = primeNum (hd g), lastPrime = primeNum (last g),
            avgD = div_by (decimal_sum (map (\<lambda>s. or_zero (dInstant s)) g)) (int
                (length g)),
            avgDStar = div_by (decimal_sum (map (\<lambda>s. or_zero (dStar s)) g)) (int (length
                g)),
            avgDk = div_by (decimal_sum (map deltaK g)) (int (length g))\<rparr>"
    if "g \<in> set ?gs" for g
  proof -
    have g: "g \<noteq> []" using ne[OF that] by simp
    show ?thesis
      using g by (simp add: chunk_row_of_nonempty avgDec_nonempty comp_def or_zero_def)
  qed
  have some: "map Some ?rows = map chunk_row_of ?gs"
    using row by (simp add: map_idI)
  have len: "length ?rows = (length series + nat c - 1) div nat c"
    using length_consecutive_groups[OF c, of series] by simp
  have "updateUIFromSeries series c = Some ?rows" by (rule updateUIFromSeries_groups[OF assms])
  moreover have "length series = 4000 \<and> c = 200 \<longrightarrow> length ?rows = 20"
    unfolding len by auto
  ultimately show ?thesis
    using some len concat_consecutive_groups[OF c, of series] consecutive_groups_full ne row
    by (intro exI[of _ ?rows]) blast
qed

theorem updateUIFromSeries_partition_witness:
  "((0::int) < 2 \<and>
   (\<exists>rows. updateUIFromSeries
       (replicate 3 \<lparr>primeNum = 7, header = JNull, dInstant = None, dStar = None,
                      deltaK = Finite 0, ratio = Finite 1, convInfo = JNull,
                          kQuai = JNull\<rparr>) 2
        = Some rows \<and> length rows = 2))
   \<and> ((0::int) < 200 \<and>
       (\<exists>rows. updateUIFromSeries
           (replicate 4000 \<lparr>primeNum = 7, header = JNull, dInstant = None, dStar = None,
                             deltaK = Finite 0, ratio = Finite 1, convInfo = JNull,
                             kQuai = JNull\<rparr>) 200
            = Some rows \<and> length rows = 20))"
proof -
  have first: "(0::int) < 2 \<and>
   (\<exists>rows. updateUIFromSeries
       (replicate 3 \<lparr>primeNum = 7, header = JNull, dInstant = None, dStar = None,
                      deltaK = Finite 0, ratio = Finite 1, convInfo = JNull,
                          kQuai = JNull\<rparr>) 2
        = Some rows \<and> length rows = 2)"
    using updateUIFromSeries_partition[of 2
        "replicate 3 \<lparr>primeNum = 7, header = JNull, dInstant = None, dStar = None,
                       deltaK = Finite 0, ratio = Finite 1, convInfo = JNull,
                           kQuai = JNull\<rparr>"]
    by auto
  have second: "(0::int) < 200 \<and>
   (\<exists>rows. updateUIFromSeries
       (replicate 4000 \<lparr>primeNum = 7, header = JNull, dInstant = None, dStar = None,
                         deltaK = Finite 0, ratio = Finite 1, convInfo = JNull,
                         kQuai = JNull\<rparr>) 200
        = Some rows \<and> length rows = 20)"
  proof -
    let ?s = "\<lparr>primeNum = 7, header = JNull, dInstant = None, dStar = None,
               deltaK = Finite 0, ratio = Finite 1, convInfo = JNull, kQuai = JNull\<rparr>"
    have pos: "(0::int) < 200" by simp
    have len: "length (replicate 4000 ?s) = 4000" by simp
    from updateUIFromSeries_partition[OF pos, of "replicate 4000 ?s"] obtain rows where
      r: "updateUIFromSeries (replicate 4000 ?s) 200 = Some rows"
      and l: "length (replicate 4000 ?s) = 4000 \<and> (200::int) = 200
          \<longrightarrow> length rows = 20"
      by blast
    from l len have "length rows = 20" by blast
    with r pos show ?thesis by blast
  qed
  show ?thesis by (rule conjI[OF first second])
qed

text \<open>
  Claim C8 as stated fails: two samples computed by the exact formula, from the best
  difficulty \<open>0x1\<close> and the header difficulties \<open>0x1\<close> and
  \<open>0x6\<close>, have \<open>deltaK = -0.001\<close> and
  \<open>deltaK = -0.000583...3\<close> (40 digits). Their chunk average is
  \<open>-0.000791666...665\<close>, which is neither the exact sum divided by 2 nor that
  value at 40 significant digits (\<open>-0.000791666...667\<close>): the sum has 41 digits
  and \<open>plus\<close> rounds it.
\<close>

theorem updateUIFromSeries_not_exact_mean:
  "build_series
     [BlockId 1 Tag_b \<mapsto> JStr (js ''0x1''),
      BlockId 1 Tag_h \<mapsto> JObject (Some (JStr (js ''[object Object]'')))
                            [(js ''minerDifficulty'', JStr (js ''0x1''))],
      BlockId 2 Tag_b \<mapsto> JStr (js ''0x1''),
      BlockId 2 Tag_h \<mapsto> JObject (Some (JStr (js ''[object Object]'')))
                            [(js ''minerDifficulty'', JStr (js ''0x6''))]]
     [1, 2] [] =
   Inr [\<lparr>primeNum = 1,
          header = JObject (Some (JStr (js ''[object Object]'')))
                     [(js ''minerDifficulty'', JStr (js ''0x1''))],
          dInstant = None, dStar = Some (Finite 1), deltaK = Finite (- (1 / 1000)),
          ratio = Finite 0, convInfo = JNull, kQuai = JNull\<rparr>,
        \<lparr>primeNum = 2,
          header = JObject (Some (JStr (js ''[object Object]'')))
                     [(js ''minerDifficulty'', JStr (js ''0x6''))],
          dInstant = None, dStar = Some (Finite 1),
          deltaK = Finite (- (5833333333333333333333333333333333333333 / 10 ^ 43)),
          ratio = Finite (4166666666666666666666666666666666666667 / 10 ^ 40),
          convInfo = JNull, kQuai = JNull\<rparr>]
   \<and> updateUIFromSeries
       [\<lparr>primeNum = 1,
          header = JObject (Some (JStr (js ''[object Object]'')))
                     [(js ''minerDifficulty'', JStr (js ''0x1''))],
          dInstant = None, dStar = Some (Finite 1), deltaK = Finite (- (1 / 1000)),
          ratio = Finite 0, convInfo = JNull, kQuai = JNull\<rparr>,
        \<lparr>primeNum = 2,
          header = JObject (Some (JStr (js ''[object Object]'')))
                     [(js ''minerDifficulty'', JStr (js ''0x6''))],
          dInstant = None, dStar = Some (Finite 1),
          deltaK = Finite (- (5833333333333333333333333333333333333333 / 10 ^ 43)),
          ratio = Finite (4166666666666666666666666666666666666667 / 10 ^ 40),
          convInfo = JNull, kQuai = JNull\<rparr>] 200 =
     Some [\<lparr>firstPrime = 1, lastPrime = 2, avgD = Finite 0, avgDStar = Finite 1,
            avgDk = Finite (- (7916666666666666666666666666666666666665 / 10 ^ 43))\<rparr>]
   \<and> (- (1 / 1000) + - (5833333333333333333333333333333333333333 / 10 ^ 43)) / 2
       = - (79166666666666666666666666666666666666665 / 10 ^ 44 :: rat)
   \<and> round_sig ((- (1 / 1000) + - (5833333333333333333333333333333333333333 / 10 ^ 43)) / 2)
       = - (7916666666666666666666666666666666666667 / 10 ^ 43)
   \<and> - (7916666666666666666666666666666666666665 / 10 ^ 43)
       \<noteq> (- (79166666666666666666666666666666666666665 / 10 ^ 44) :: rat)
   \<and> - (7916666666666666666666666666666666666665 / 10 ^ 43)
       \<noteq> (- (7916666666666666666666666666666666666667 / 10 ^ 43) :: rat)"
  by code_simp

section \<open>Properties of the stored samples\<close>

text \<open>
  Claim C6, as amended. The stored sample has no field that records which formula computed
  it. The formula can be read back from the stored header alone: a sample of the exact
  formula keeps a header with a truthy \<open>minerDifficulty\<close>, a sample of the
  approximate formula keeps a header that is null or has none.
\<close>

theorem formula_read_from_header:
  assumes "build_sample m n = Inr s"
  shows "(formula_used (lookup_or_null m (BlockId n Tag_m)) (lookup_or_null m (BlockId n Tag_b))
            (lookup_or_null m (BlockId n Tag_h)) = Exact
          \<longrightarrow> truthy (header s) \<and> truthy (get_prop (header s) (js
              ''minerDifficulty'')))
       \<and> (formula_used (lookup_or_null m (BlockId n Tag_m)) (lookup_or_null m (BlockId n
           Tag_b))
            (lookup_or_null m (BlockId n Tag_h)) = Approximate
          \<longrightarrow> \<not> (truthy (header s)
              \<and> truthy (get_prop (header s) (js ''minerDifficulty''))))"
proof -
  obtain t where "build_sample m n = Inr t" "header t = lookup_or_null m (BlockId n Tag_h)"
    by (rule build_sample_Inr[of m n]) blast
  then have h: "header s = lookup_or_null m (BlockId n Tag_h)" using assms by simp
  show ?thesis unfolding h by (auto simp: formula_used_def split: if_splits)
qed

theorem formula_read_from_header_witness:
  "(build_sample [BlockId 5 Tag_m \<mapsto> JStr (js ''0x2''),
      BlockId 5 Tag_b \<mapsto> JStr (js ''0x2'')] 5 =
     Inr \<lparr>primeNum = 5, header = JNull, dInstant = Some (Finite 2), dStar = Some (Finite 2),
          deltaK = Finite 0, ratio = Finite 1, convInfo = JNull, kQuai = JNull\<rparr>
   \<and> formula_used
        (lookup_or_null [BlockId 5 Tag_m \<mapsto> JStr (js ''0x2''),
            BlockId 5 Tag_b \<mapsto> JStr (js ''0x2'')]
           (BlockId 5 Tag_m))
        (lookup_or_null [BlockId 5 Tag_m \<mapsto> JStr (js ''0x2''),
            BlockId 5 Tag_b \<mapsto> JStr (js ''0x2'')]
           (BlockId 5 Tag_b))
        (lookup_or_null [BlockId 5 Tag_m \<mapsto> JStr (js ''0x2''),
            BlockId 5 Tag_b \<mapsto> JStr (js ''0x2'')]
           (BlockId 5 Tag_h)) = Approximate
   \<and> \<not> (truthy JNull \<and> truthy (get_prop JNull (js ''minerDifficulty''))))
   \<and> (build_sample
           [BlockId 5 Tag_m \<mapsto> JStr (js ''0x2''),
               BlockId 5 Tag_b \<mapsto> JStr (js ''0x2''),
            BlockId 5 Tag_h \<mapsto> JObject (Some (JStr (js ''[object Object]'')))
              [(js ''minerDifficulty'', JStr (js ''0x2''))]] 5
         = Inr \<lparr>primeNum = 5,
                header = JObject (Some (JStr (js ''[object Object]'')))
                  [(js ''minerDifficulty'', JStr (js ''0x2''))],
                dInstant = Some (Finite 2), dStar = Some (Finite 2), deltaK = Finite 0,
                ratio = Finite 1, convInfo = JNull, kQuai = JNull\<rparr>
       \<and> formula_used
            (lookup_or_null
               [BlockId 5 Tag_m \<mapsto> JStr (js ''0x2''),
                   BlockId 5 Tag_b \<mapsto> JStr (js ''0x2''),
                BlockId 5 Tag_h \<mapsto> JObject (Some (JStr (js ''[object Object]'')))
                  [(js ''minerDifficulty'', JStr (js ''0x2''))]]
               (BlockId 5 Tag_m))
            (lookup_or_null
               [BlockId 5 Tag_m \<mapsto> JStr (js ''0x2''),
                   BlockId 5 Tag_b \<mapsto> JStr (js ''0x2''),
                BlockId 5 Tag_h \<mapsto> JObject (Some (JStr (js ''[object Object]'')))
                  [(js ''minerDifficulty'', JStr (js ''0x2''))]]
               (BlockId 5 Tag_b))
            (lookup_or_null
               [BlockId 5 Tag_m \<mapsto> JStr (js ''0x2''),
                   BlockId 5 Tag_b \<mapsto> JStr (js ''0x2''),
                BlockId 5 Tag_h \<mapsto> JObject (Some (JStr (js ''[object Object]'')))
                  [(js ''minerDifficulty'', JStr (js ''0x2''))]]
               (BlockId 5 Tag_h)) = Exact
       \<and> truthy (JObject (Some (JStr (js ''[object Object]'')))
                   [(js ''minerDifficulty'', JStr (js ''0x2''))])
       \<and> truthy (get_prop (JObject (Some (JStr (js ''[object Object]'')))
                     [(js ''minerDifficulty'', JStr (js ''0x2''))]) (js ''minerDifficulty'')))"
proof -
  have first: "build_sample [BlockId 5 Tag_m \<mapsto> JStr (js ''0x2''),
      BlockId 5 Tag_b \<mapsto> JStr (js ''0x2'')] 5 =
     Inr \<lparr>primeNum = 5, header = JNull, dInstant = Some (Finite 2), dStar = Some (Finite 2),
          deltaK = Finite 0, ratio = Finite 1, convInfo = JNull, kQuai = JNull\<rparr>
   \<and> formula_used
        (lookup_or_null [BlockId 5 Tag_m \<mapsto> JStr (js ''0x2''),
            BlockId 5 Tag_b \<mapsto> JStr (js ''0x2'')]
           (BlockId 5 Tag_m))
        (lookup_or_null [BlockId 5 Tag_m \<mapsto> JStr (js ''0x2''),
            BlockId 5 Tag_b \<mapsto> JStr (js ''0x2'')]
           (BlockId 5 Tag_b))
        (lookup_or_null [BlockId 5 Tag_m \<mapsto> JStr (js ''0x2''),
            BlockId 5 Tag_b \<mapsto> JStr (js ''0x2'')]
           (BlockId 5 Tag_h)) = Approximate
   \<and> \<not> (truthy JNull \<and> truthy (get_prop JNull (js ''minerDifficulty'')))"
  proof -
    have b: "build_sample [BlockId 5 Tag_m \<mapsto> JStr (js ''0x2''),
        BlockId 5 Tag_b \<mapsto> JStr (js ''0x2'')] 5 =
       Inr \<lparr>primeNum = 5, header = JNull, dInstant = Some (Finite 2),
           dStar = Some (Finite 2),
            deltaK = Finite 0, ratio = Finite 1, convInfo = JNull, kQuai = JNull\<rparr>"
      by code_simp
    have f: "formula_used
          (lookup_or_null [BlockId 5 Tag_m \<mapsto> JStr (js ''0x2''),
              BlockId 5 Tag_b \<mapsto> JStr (js ''0x2'')]
             (BlockId 5 Tag_m))
          (lookup_or_null [BlockId 5 Tag_m \<mapsto> JStr (js ''0x2''),
              BlockId 5 Tag_b \<mapsto> JStr (js ''0x2'')]
             (BlockId 5 Tag_b))
          (lookup_or_null [BlockId 5 Tag_m \<mapsto> JStr (js ''0x2''),
              BlockId 5 Tag_b \<mapsto> JStr (js ''0x2'')]
             (BlockId 5 Tag_h)) = Approximate"
      by code_simp
    show ?thesis using formula_read_from_header[OF b] b f by simp
  qed
  have second: "build_sample
       [BlockId 5 Tag_m \<mapsto> JStr (js ''0x2''), BlockId 5 Tag_b \<mapsto> JStr (js ''0x2''),
        BlockId 5 Tag_h \<mapsto> JObject (Some (JStr (js ''[object Object]'')))
          [(js ''minerDifficulty'', JStr (js ''0x2''))]] 5
     = Inr \<lparr>primeNum = 5,
            header = JObject (Some (JStr (js ''[object Object]'')))
              [(js ''minerDifficulty'', JStr (js ''0x2''))],
            dInstant = Some (Finite 2), dStar = Some (Finite 2), deltaK = Finite 0,
            ratio = Finite 1, convInfo = JNull, kQuai = JNull\<rparr>
   \<and> formula_used
        (lookup_or_null
           [BlockId 5 Tag_m \<mapsto> JStr (js ''0x2''),
               BlockId 5 Tag_b \<mapsto> JStr (js ''0x2''),
            BlockId 5 Tag_h \<mapsto> JObject (Some (JStr (js ''[object Object]'')))
              [(js ''minerDifficulty'', JStr (js ''0x2''))]]
           (BlockId 5 Tag_m))
        (lookup_or_null
           [BlockId 5 Tag_m \<mapsto> JStr (js ''0x2''),
               BlockId 5 Tag_b \<mapsto> JStr (js ''0x2''),
            BlockId 5 Tag_h \<mapsto> JObject (Some (JStr (js ''[object Object]'')))
              [(js ''minerDifficulty'', JStr (js ''0x2''))]]
           (BlockId 5 Tag_b))
        (lookup_or_null
           [BlockId 5 Tag_m \<mapsto> JStr (js ''0x2''),
               BlockId 5 Tag_b \<mapsto> JStr (js ''0x2''),
            BlockId 5 Tag_h \<mapsto> JObject (Some (JStr (js ''[object Object]'')))
              [(js ''minerDifficulty'', JStr (js ''0x2''))]]
           (BlockId 5 Tag_h)) = Exact
   \<and> truthy (JObject (Some (JStr (js ''[object Object]'')))
               [(js ''minerDifficulty'', JStr (js ''0x2''))])
   \<and> truthy (get_prop (JObject (Some (JStr (js ''[object Object]'')))
                 [(js ''minerDifficulty'', JStr (js ''0x2''))]) (js ''minerDifficulty''))"
  proof -
    let ?m = "[BlockId 5 Tag_m \<mapsto> JStr (js ''0x2''),
        BlockId 5 Tag_b \<mapsto> JStr (js ''0x2''),
          BlockId 5 Tag_h \<mapsto> JObject (Some (JStr (js ''[object Object]'')))
            [(js ''minerDifficulty'', JStr (js ''0x2''))]]"
    have b: "build_sample ?m 5
       = Inr \<lparr>primeNum = 5,
              header = JObject (Some (JStr (js ''[object Object]'')))
                [(js ''minerDifficulty'', JStr (js ''0x2''))],
              dInstant = Some (Finite 2), dStar = Some (Finite 2), deltaK = Finite 0,
              ratio = Finite 1, convInfo = JNull, kQuai = JNull\<rparr>"
      by code_simp
    have f: "formula_used (lookup_or_null ?m (BlockId 5 Tag_m))
          (lookup_or_null ?m (BlockId 5 Tag_b)) (lookup_or_null ?m (BlockId 5 Tag_h)) = Exact"
      by code_simp
    show ?thesis using formula_read_from_header[OF b] b f by simp
  qed
  show ?thesis by (rule conjI[OF first second])
qed

text \<open>
  Claim C6 as stated fails: for the same difficulties \<open>0x2\<close>, the sample
  computed by the exact formula (the header carries \<open>minerDifficulty\<close>) and the
  sample computed by the approximate formula (the header does not) hold the same value in
  every field but the raw header, no field marks the formula, and their chunk rows are
  equal.
\<close>

theorem no_provenance_marker:
  "formula_used (JStr (js ''0x2'')) (JStr (js ''0x2''))
     (JObject (Some (JStr (js ''[object Object]'')))
        [(js ''minerDifficulty'', JStr (js ''0x2'')), (js ''exchangeRate'', JStr (js ''0x7''))])
     = Exact
   \<and> formula_used (JStr (js ''0x2'')) (JStr (js ''0x2''))
     (JObject (Some (JStr (js ''[object Object]''))) [(js ''exchangeRate'', JStr (js ''0x7''))])
     = Approximate
   \<and> build_sample
       [BlockId 5 Tag_m \<mapsto> JStr (js ''0x2''), BlockId 5 Tag_b \<mapsto> JStr (js ''0x2''),
        BlockId 5 Tag_h \<mapsto> JObject (Some (JStr (js ''[object Object]'')))
          [(js ''minerDifficulty'', JStr (js ''0x2'')), (js ''exchangeRate'',
              JStr (js ''0x7''))]] 5
     = Inr \<lparr>primeNum = 5,
            header = JObject (Some (JStr (js ''[object Object]'')))
              [(js ''minerDifficulty'', JStr (js ''0x2'')), (js ''exchangeRate'',
                  JStr (js ''0x7''))],
            dInstant = Some (Finite 2), dStar = Some (Finite 2), deltaK = Finite 0,
            ratio = Finite 1, convInfo = JNull, kQuai = JStr (js ''0x7'')\<rparr>
   \<and> build_sample
       [BlockId 5 Tag_m \<mapsto> JStr (js ''0x2''), BlockId 5 Tag_b \<mapsto> JStr (js ''0x2''),
        BlockId 5 Tag_h \<mapsto> JObject (Some (JStr (js ''[object Object]'')))
          [(js ''exchangeRate'', JStr (js ''0x7''))]] 5
     = Inr \<lparr>primeNum = 5,
            header = JObject (Some (JStr (js ''[object Object]'')))
              [(js ''exchangeRate'', JStr (js ''0x7''))],
            dInstant = Some (Finite 2), dStar = Some (Finite 2), deltaK = Finite 0,
            ratio = Finite 1, convInfo = JNull, kQuai = JStr (js ''0x7'')\<rparr>
   \<and> updateUIFromSeries
       [\<lparr>primeNum = 5,
          header = JObject (Some (JStr (js ''[object Object]'')))
            [(js ''minerDifficulty'', JStr (js ''0x2'')), (js ''exchangeRate'', JStr (js ''0x7''))],
          dInstant = Some (Finite 2), dStar = Some (Finite 2), deltaK = Finite 0,
          ratio = Finite 1, convInfo = JNull, kQuai = JStr (js ''0x7'')\<rparr>] 200
     = updateUIFromSeries
       [\<lparr>primeNum = 5,
          header = JObject (Some (JStr (js ''[object Object]'')))
            [(js ''exchangeRate'', JStr (js ''0x7''))],
          dInstant = Some (Finite 2), dStar = Some (Finite 2), deltaK = Finite 0,
          ratio = Finite 1, convInfo = JNull, kQuai = JStr (js ''0x7'')\<rparr>] 200"
  by code_simp

section \<open>Properties of RpcBatchClient\<close>

lemma rpcBatch_success:
  "net (length ps) req = Inr data \<Longrightarrow>
   rpcBatch net req opts ps = (Inr (batch_map data Map.empty), ps @ [req])"
  by (simp add: rpcBatch_def rpcBatch_from.simps)

lemma rpcBatch_from_all_fail:
  "(\<And>k. k \<le> r \<Longrightarrow> \<exists>e. net (length ps + k) req = Inl e)
      \<Longrightarrow>
   \<exists>e. rpcBatch_from net req r ps = (Inl e, ps @ replicate (Suc r) req)"
proof (induction r arbitrary: ps)
  case 0
  then obtain e where "net (length ps) req = Inl e" by force
  then show ?case by (simp add: rpcBatch_from.simps)
next
  case (Suc r)
  obtain e where e: "net (length ps) req = Inl e" using Suc.prems[of 0] by auto
  have "\<And>k. k \<le> r \<Longrightarrow> \<exists>e. net (length (ps @ [req]) + k) req = Inl e"
    using Suc.prems by (metis Suc_le_mono add_Suc_shift length_append_singleton)
  from Suc.IH[OF this] obtain e' where
    "rpcBatch_from net req r (ps @ [req]) = (Inl e', (ps @ [req]) @ replicate (Suc r) req)"
    by blast
  then show ?case using e by (subst rpcBatch_from.simps) (simp add: replicate_app_Cons_same)
qed

lemma rpcBatch_all_fail:
  "(\<And>k. k \<le> retries opts \<Longrightarrow> \<exists>e. net (length ps + k) req = Inl e)
      \<Longrightarrow>
   \<exists>e. rpcBatch net req opts ps = (Inl e, ps @ replicate (Suc (retries opts)) req)"
  unfolding rpcBatch_def by (rule rpcBatch_from_all_fail)

lemma rpcBatch_second_attempt:
  assumes "net (length ps) req = Inl e" "net (Suc (length ps)) req = Inr data"
    and "retries opts = Suc r"
  shows "rpcBatch net req opts ps = (Inr (batch_map data Map.empty), ps @ [req, req])"
  using assms
  by (simp add: rpcBatch_def rpcBatch_from.simps[of net req "Suc r"]
      rpcBatch_from.simps[of net req r])

lemma slice_loop_step:
  "i < int (length reqs) \<Longrightarrow>
   slice_loop net reqs maxPer opts i m ps =
   slice_loop net reqs maxPer opts (i + maxPer)
     (case fst (rpcBatch net (js_slice reqs i (i + maxPer)) opts ps) of
        Inr partMap \<Rightarrow> m ++ partMap | Inl err \<Rightarrow> m)
     (snd (rpcBatch net (js_slice reqs i (i + maxPer)) opts ps))"
  by (subst slice_loop.simps) simp

lemma slice_loop_done:
  "\<not> i < int (length reqs) \<Longrightarrow> slice_loop net reqs maxPer opts i m ps =
      Some (m, ps)"
  by (subst slice_loop.simps) simp

lemma slices_5000:
  assumes "length reqs = 5000"
  shows "js_slice reqs 0 2000 = take 2000 reqs"
    and "js_slice reqs 2000 4000 = take 2000 (drop 2000 reqs)"
    and "js_slice reqs 4000 6000 = drop 4000 reqs"
  using assms js_slice_window[of 0 2000 reqs] js_slice_window[of 2000 2000 reqs]
    js_slice_window[of 4000 2000 reqs]
  by simp_all

lemma slice_loop_5000:
  assumes len: "length reqs = 5000"
    and r1: "rpcBatch net (take 2000 reqs) opts ps = (x1, p1)"
    and r2: "rpcBatch net (take 2000 (drop 2000 reqs)) opts p1 = (x2, p2)"
    and r3: "rpcBatch net (drop 4000 reqs) opts p2 = (x3, p3)"
  shows "slice_loop net reqs 2000 opts 0 Map.empty ps =
    Some ((case x3 of Inr partMap \<Rightarrow>
              (case x2 of Inr partMap \<Rightarrow>
                  (case x1 of Inr partMap \<Rightarrow> Map.empty ++ partMap
                      | Inl err \<Rightarrow> Map.empty) ++ partMap
                | Inl err \<Rightarrow> (case x1 of Inr partMap \<Rightarrow> Map.empty ++ partMap
                    | Inl err \<Rightarrow> Map.empty)) ++ partMap
            | Inl err \<Rightarrow>
              (case x2 of Inr partMap \<Rightarrow>
                  (case x1 of Inr partMap \<Rightarrow> Map.empty ++ partMap
                      | Inl err \<Rightarrow> Map.empty) ++ partMap
                | Inl err \<Rightarrow> (case x1 of Inr partMap \<Rightarrow> Map.empty ++ partMap
                    | Inl err \<Rightarrow> Map.empty))),
          p3)"
proof -
  note sl = slices_5000[OF len]
  have "slice_loop net reqs 2000 opts 0 Map.empty ps =
      slice_loop net reqs 2000 opts 2000
        (case x1 of Inr partMap \<Rightarrow> Map.empty ++ partMap
            | Inl err \<Rightarrow> Map.empty) p1"
    using slice_loop_step[of 0 reqs net 2000 opts Map.empty ps] len by (simp add: sl r1)
  also have "\<dots> = slice_loop net reqs 2000 opts 4000
        (case x2 of Inr partMap \<Rightarrow>
            (case x1 of Inr partMap \<Rightarrow> Map.empty ++ partMap
                | Inl err \<Rightarrow> Map.empty) ++ partMap
          | Inl err \<Rightarrow> (case x1 of Inr partMap \<Rightarrow> Map.empty ++ partMap
              | Inl err \<Rightarrow> Map.empty)) p2"
    using slice_loop_step[of 2000 reqs net 2000 opts _ p1] len by (simp add: sl r2)
  also have "\<dots> = slice_loop net reqs 2000 opts 6000
        (case x3 of Inr partMap \<Rightarrow>
              (case x2 of Inr partMap \<Rightarrow>
                  (case x1 of Inr partMap \<Rightarrow> Map.empty ++ partMap
                      | Inl err \<Rightarrow> Map.empty) ++ partMap
                | Inl err \<Rightarrow> (case x1 of Inr partMap \<Rightarrow> Map.empty ++ partMap
                    | Inl err \<Rightarrow> Map.empty)) ++ partMap
            | Inl err \<Rightarrow>
              (case x2 of Inr partMap \<Rightarrow>
                  (case x1 of Inr partMap \<Rightarrow> Map.empty ++ partMap
                      | Inl err \<Rightarrow> Map.empty) ++ partMap
                | Inl err \<Rightarrow> (case x1 of Inr partMap \<Rightarrow> Map.empty ++ partMap
                    | Inl err \<Rightarrow> Map.empty))) p3"
    using slice_loop_step[of 4000 reqs net 2000 opts _ p2] len by (simp add: sl r3)
  also have "\<dots> = Some ((case x3 of Inr partMap \<Rightarrow>
              (case x2 of Inr partMap \<Rightarrow>
                  (case x1 of Inr partMap \<Rightarrow> Map.empty ++ partMap
                      | Inl err \<Rightarrow> Map.empty) ++ partMap
                | Inl err \<Rightarrow> (case x1 of Inr partMap \<Rightarrow> Map.empty ++ partMap
                    | Inl err \<Rightarrow> Map.empty)) ++ partMap
            | Inl err \<Rightarrow>
              (case x2 of Inr partMap \<Rightarrow>
                  (case x1 of Inr partMap \<Rightarrow> Map.empty ++ partMap
                      | Inl err \<Rightarrow> Map.empty) ++ partMap
                | Inl err \<Rightarrow> (case x1 of Inr partMap \<Rightarrow> Map.empty ++ partMap
                    | Inl err \<Rightarrow> Map.empty))),
          p3)"
    using len by (intro slice_loop_done) simp
  finally show ?thesis .
qed

lemma dom_batch_map_answers:
  "dom (batch_map (answers idf answer body) m) = dom m \<union> idf ` set body"
  unfolding answers_def by (induction body arbitrary: m) auto

lemma sendBatchWithLimit_5000:
  assumes len: "length reqs = 5000"
    and r1: "rpcBatch net (take 2000 reqs) opts ps = (x1, p1)"
    and r2: "rpcBatch net (take 2000 (drop 2000 reqs)) opts p1 = (x2, p2)"
    and r3: "rpcBatch net (drop 4000 reqs) opts p2 = (x3, p3)"
  shows "sendBatchWithLimit net reqs 2000 opts ps =
    Some (Inr ((case x3 of Inr partMap \<Rightarrow>
              (case x2 of Inr partMap \<Rightarrow>
                  (case x1 of Inr partMap \<Rightarrow> Map.empty ++ partMap
                      | Inl err \<Rightarrow> Map.empty) ++ partMap
                | Inl err \<Rightarrow> (case x1 of Inr partMap \<Rightarrow> Map.empty ++ partMap
                    | Inl err \<Rightarrow> Map.empty)) ++ partMap
            | Inl err \<Rightarrow>
              (case x2 of Inr partMap \<Rightarrow>
                  (case x1 of Inr partMap \<Rightarrow> Map.empty ++ partMap
                      | Inl err \<Rightarrow> Map.empty) ++ partMap
                | Inl err \<Rightarrow> (case x1 of Inr partMap \<Rightarrow> Map.empty ++ partMap
                    | Inl err \<Rightarrow> Map.empty)))),
          p3)"
proof -
  have "reqs \<noteq> []" using len by auto
  then show ?thesis
    using len by (simp add: sendBatchWithLimit_def slice_loop_5000[OF len r1 r2 r3])
qed

text \<open>
  Claim C5, as amended. On 5000 requests with 2000 items per POST,
  \<open>sendBatchWithLimit\<close> sends the three consecutive slices of 2000, 2000 and
  1000 requests, in order, by one \<open>rpcBatch\<close> call each. When the first POST of
  each slice is answered, these are exactly three POSTs and the result is the three maps
  merged. When every POST of the middle slice fails (one POST with the default
  \<open>retries = 0\<close>, \<open>retries + 1\<close> otherwise), the slice is skipped:
  the result is the maps of slices 1 and 3 merged, and, the ids being distinct and each
  answered slice answered in full, it holds the ids of slices 1 and 3 and none of slice 2. A
  list of at least one and at most \<open>maxPer\<close> requests is handed to a single
  \<open>rpcBatch\<close> call; for the empty list the empty map is returned and nothing is
  sent.
\<close>

theorem sendBatchWithLimit_slices:
  "(length reqs = 5000 \<longrightarrow>
      length (take 2000 reqs) = 2000 \<and> length (take 2000 (drop 2000 reqs)) = 2000
      \<and> length (drop 4000 reqs) = 1000
      \<and> take 2000 reqs @ take 2000 (drop 2000 reqs) @ drop 4000 reqs = reqs
      \<and> (\<forall>d1 d2 d3.
            net (length ps) (take 2000 reqs) = Inr d1
            \<and> net (length ps + 1) (take 2000 (drop 2000 reqs)) = Inr d2
            \<and> net (length ps + 2) (drop 4000 reqs) = Inr d3
            \<longrightarrow> sendBatchWithLimit net reqs 2000 opts ps =
                  Some (Inr (batch_map d1 Map.empty ++ batch_map d2 Map.empty
                               ++ batch_map d3 Map.empty),
                        ps @ [take 2000 reqs, take 2000 (drop 2000 reqs), drop 4000 reqs]))
      \<and> (\<forall>d1 d3.
            net (length ps) (take 2000 reqs) = Inr d1
            \<and> (\<forall>k \<le> retries opts. \<exists>e. net (length ps + 1 + k) (take 2000
                (drop 2000 reqs)) = Inl e)
            \<and> net (length ps + 2 + retries opts) (drop 4000 reqs) = Inr d3
            \<longrightarrow> sendBatchWithLimit net reqs 2000 opts ps =
                  Some (Inr (batch_map d1 Map.empty ++ batch_map d3 Map.empty),
                        ps @ [take 2000 reqs]
                           @ replicate (Suc (retries opts)) (take 2000 (drop 2000 reqs))
                           @ [drop 4000 reqs])
                \<and> (distinct (map idf reqs)
                     \<and> dom (batch_map d1 Map.empty) = idf ` set (take 2000 reqs)
                     \<and> dom (batch_map d3 Map.empty) = idf ` set (drop 4000 reqs)
                     \<longrightarrow> dom (batch_map d1 Map.empty ++ batch_map d3 Map.empty)
                           = idf ` set (take 2000 reqs) \<union> idf ` set (drop 4000 reqs)
                         \<and> dom (batch_map d1 Map.empty ++ batch_map d3 Map.empty)
                             \<inter> idf ` set (take 2000 (drop 2000 reqs)) = {})))
   \<and> (reqs \<noteq> [] \<and> int (length reqs) \<le> maxPer
        \<longrightarrow> sendBatchWithLimit net reqs maxPer opts ps =
            Some (rpcBatch net reqs opts ps))
   \<and> sendBatchWithLimit net [] maxPer opts ps = Some (Inr Map.empty, ps)"
proof (intro conjI impI allI)
  show "sendBatchWithLimit net [] maxPer opts ps = Some (Inr Map.empty, ps)"
    by (simp add: sendBatchWithLimit_def)
  show "sendBatchWithLimit net reqs maxPer opts ps = Some (rpcBatch net reqs opts ps)"
    if "reqs \<noteq> [] \<and> int (length reqs) \<le> maxPer"
    using that by (simp add: sendBatchWithLimit_def)
next
  assume len: "length reqs = 5000"
  let ?s1 = "take 2000 reqs" and ?s2 = "take 2000 (drop 2000 reqs)" and ?s3 = "drop 4000 reqs"
  show "length ?s1 = 2000" "length ?s2 = 2000" "length ?s3 = 1000" using len by simp_all
  show split: "?s1 @ ?s2 @ ?s3 = reqs"
  proof -
    have "?s2 @ ?s3 = drop 2000 reqs"
      using append_take_drop_id[of 2000 "drop 2000 reqs"] by simp
    then show ?thesis by simp
  qed
  {
    fix d1 d2 d3
    assume a: "net (length ps) ?s1 = Inr d1 \<and> net (length ps + 1) ?s2 = Inr d2
        \<and> net (length ps + 2) ?s3 = Inr d3"
    have r1: "rpcBatch net ?s1 opts ps = (Inr (batch_map d1 Map.empty), ps @ [?s1])"
      using a by (intro rpcBatch_success) simp
    have r2: "rpcBatch net ?s2 opts (ps @ [?s1]) = (Inr (batch_map d2 Map.empty), ps @ [?s1]
        @ [?s2])"
      using a rpcBatch_success[of net "ps @ [?s1]" ?s2 d2 opts] by simp
    have r3: "rpcBatch net ?s3 opts (ps @ [?s1] @ [?s2])
        = (Inr (batch_map d3 Map.empty), ps @ [?s1] @ [?s2] @ [?s3])"
      using a rpcBatch_success[of net "ps @ [?s1] @ [?s2]" ?s3 d3 opts] by simp
    show "sendBatchWithLimit net reqs 2000 opts ps =
        Some (Inr (batch_map d1 Map.empty ++ batch_map d2 Map.empty ++ batch_map d3 Map.empty),
              ps @ [?s1, ?s2, ?s3])"
      using sendBatchWithLimit_5000[OF len r1 r2 r3] by simp
  }
  {
    fix d1 d3
    assume a: "net (length ps) ?s1 = Inr d1
        \<and> (\<forall>k \<le> retries opts. \<exists>e. net (length ps + 1 + k) ?s2 = Inl e)
        \<and> net (length ps + 2 + retries opts) ?s3 = Inr d3"
    have r1: "rpcBatch net ?s1 opts ps = (Inr (batch_map d1 Map.empty), ps @ [?s1])"
      using a by (intro rpcBatch_success) simp
    obtain e where r2: "rpcBatch net ?s2 opts (ps @ [?s1])
        = (Inl e, (ps @ [?s1]) @ replicate (Suc (retries opts)) ?s2)"
      using a rpcBatch_all_fail[of opts net "ps @ [?s1]" ?s2] by auto
    have r3: "rpcBatch net ?s3 opts ((ps @ [?s1]) @ replicate (Suc (retries opts)) ?s2)
        = (Inr (batch_map d3 Map.empty),
           ((ps @ [?s1]) @ replicate (Suc (retries opts)) ?s2) @ [?s3])"
      using a by (intro rpcBatch_success) (simp add: add.commute add.left_commute)
    show "sendBatchWithLimit net reqs 2000 opts ps =
        Some (Inr (batch_map d1 Map.empty ++ batch_map d3 Map.empty),
              ps @ [?s1] @ replicate (Suc (retries opts)) ?s2 @ [?s3])"
      using sendBatchWithLimit_5000[OF len r1 r2 r3] by simp
    assume b: "distinct (map idf reqs)
        \<and> dom (batch_map d1 Map.empty) = idf ` set ?s1
        \<and> dom (batch_map d3 Map.empty) = idf ` set ?s3"
    show "dom (batch_map d1 Map.empty ++ batch_map d3 Map.empty) =
        idf ` set ?s1 \<union> idf ` set ?s3"
      using b by auto
    have "distinct (map idf ?s1 @ map idf ?s2 @ map idf ?s3)"
      using b split by (metis map_append)
    then have "idf ` set ?s1 \<inter> idf ` set ?s2 = {}" "idf ` set ?s3 \<inter> idf ` set ?s2 =
        {}"
      by auto
    then show "dom (batch_map d1 Map.empty ++ batch_map d3 Map.empty) \<inter> idf ` set ?s2 = {}"
      using b by auto
  }
qed

theorem sendBatchWithLimit_slices_witness:
  "(length [0..<5000::nat] = 5000
   \<and> sendBatchWithLimit (dropping_network 1 id null_result) [0..<5000::nat] 2000
       \<lparr>timeout = 120000, retries = 0\<rparr> [] =
       Some (Inr (batch_map (answers id null_result (take 2000 [0..<5000::nat])) Map.empty
           ++ batch_map (answers id null_result (drop 4000 [0..<5000::nat])) Map.empty),
             [take 2000 [0..<5000::nat], take 2000 (drop 2000 [0..<5000::nat]),
                 drop 4000 [0..<5000::nat]])
   \<and> dom (batch_map (answers id null_result (take 2000 [0..<5000::nat])) Map.empty
       ++ batch_map (answers id null_result (drop 4000 [0..<5000::nat])) Map.empty)
       = id ` set (take 2000 [0..<5000::nat]) \<union> id ` set (drop 4000 [0..<5000::nat])
   \<and> dom (batch_map (answers id null_result (take 2000 [0..<5000::nat])) Map.empty
       ++ batch_map (answers id null_result (drop 4000 [0..<5000::nat])) Map.empty) \<inter> id `
       set (take 2000 (drop 2000 [0..<5000::nat])) = {}
   \<and> sendBatchWithLimit (dropping_network 1 id null_result) [7, 8,
       9 :: nat] 2000 \<lparr>timeout = 120000, retries = 0\<rparr> [] =
       Some (rpcBatch (dropping_network 1 id null_result) [7, 8, 9] \<lparr>timeout = 120000,
       retries = 0\<rparr> []))
   \<and> (length [0..<5000::nat] = 5000
       \<and> sendBatchWithLimit (answering_network id null_result) [0..<5000::nat] 2000
           \<lparr>timeout = 120000, retries = 0\<rparr> [] =
           Some (Inr (batch_map (answers id null_result (take 2000 [0..<5000::nat])) Map.empty
               ++ batch_map (answers id null_result (take 2000 (drop 2000 [0..<5000::nat])))
               Map.empty
                      ++ batch_map (answers id null_result (drop 4000 [0..<5000::nat])) Map.empty),
                 [take 2000 [0..<5000::nat], take 2000 (drop 2000 [0..<5000::nat]),
                  drop 4000 [0..<5000::nat]]))"
proof -
  have first: "length [0..<5000::nat] = 5000
   \<and> sendBatchWithLimit (dropping_network 1 id null_result) [0..<5000::nat] 2000
       \<lparr>timeout = 120000, retries = 0\<rparr> [] =
       Some (Inr (batch_map (answers id null_result (take 2000 [0..<5000::nat])) Map.empty
           ++ batch_map (answers id null_result (drop 4000 [0..<5000::nat])) Map.empty),
             [take 2000 [0..<5000::nat], take 2000 (drop 2000 [0..<5000::nat]),
                 drop 4000 [0..<5000::nat]])
   \<and> dom (batch_map (answers id null_result (take 2000 [0..<5000::nat])) Map.empty
       ++ batch_map (answers id null_result (drop 4000 [0..<5000::nat])) Map.empty)
       = id ` set (take 2000 [0..<5000::nat]) \<union> id ` set (drop 4000 [0..<5000::nat])
   \<and> dom (batch_map (answers id null_result (take 2000 [0..<5000::nat])) Map.empty
       ++ batch_map (answers id null_result (drop 4000 [0..<5000::nat])) Map.empty) \<inter> id `
       set (take 2000 (drop 2000 [0..<5000::nat])) = {}
   \<and> sendBatchWithLimit (dropping_network 1 id null_result) [7, 8,
       9 :: nat] 2000 \<lparr>timeout = 120000, retries = 0\<rparr> [] =
       Some (rpcBatch (dropping_network 1 id null_result) [7, 8, 9] \<lparr>timeout = 120000,
       retries = 0\<rparr> [])"
  proof -
    let ?ps = "[] :: nat list list"
    let ?O = "\<lparr>timeout = 120000, retries = 0\<rparr>"
    have n0: "(dropping_network 1 id null_result) (length ?ps) (take 2000 [0..<5000::nat]) =
        Inr (answers id null_result (take 2000 [0..<5000::nat]))"
      by (simp add: dropping_network_def answering_network_def del: upt_rec_numeral take_upt
          drop_upt)
    have n1: "\<forall>k \<le> retries ?O. \<exists>e. (dropping_network 1 id null_result) (length
        ?ps + 1 + k) (take 2000 (drop 2000 [0..<5000::nat])) = Inl e"
      by (simp add: dropping_network_def del: upt_rec_numeral take_upt drop_upt)
    have n2: "(dropping_network 1 id null_result) (length ?ps + 2 + retries ?O) (drop 4000
        [0..<5000::nat]) = Inr (answers id null_result (drop 4000 [0..<5000::nat]))"
      by (simp add: dropping_network_def answering_network_def del: upt_rec_numeral take_upt
          drop_upt)
    have d1: "dom (batch_map (answers id null_result (take 2000 [0..<5000::nat])) Map.empty) =
        id ` set (take 2000 [0..<5000::nat])"
      by (simp only: dom_batch_map_answers dom_empty Un_empty_left)
    have d3: "dom (batch_map (answers id null_result (drop 4000 [0..<5000::nat])) Map.empty) =
        id ` set (drop 4000 [0..<5000::nat])"
      by (simp only: dom_batch_map_answers dom_empty Un_empty_left)
    have di: "distinct (map id [0..<5000::nat])" by simp
    have l: "length [0..<5000::nat] = 5000" by simp
    have ne: "[7, 8, 9 :: nat] \<noteq> [] \<and> int (length [7, 8, 9 :: nat]) \<le> 2000" by simp
    note T = sendBatchWithLimit_slices[of "[0..<5000::nat]" "(dropping_network 1 id null_result)"
        ?ps ?O id 2000,
               THEN conjunct1, THEN mp, OF l]
    note U = sendBatchWithLimit_slices[of "[7, 8,
        9 :: nat]" "(dropping_network 1 id null_result)" ?ps ?O id 2000,
               THEN conjunct2, THEN conjunct1, THEN mp, OF ne]
    from T have M: "\<forall>d1 d3.
              (dropping_network 1 id null_result) (length ?ps) (take 2000 [0..<5000::nat]) = Inr d1
              \<and> (\<forall>k \<le> retries ?O. \<exists>e. (dropping_network 1 id null_result)
                  (length ?ps + 1 + k) (take 2000 (drop 2000 [0..<5000::nat])) = Inl e)
              \<and> (dropping_network 1 id null_result) (length ?ps + 2 + retries ?O) (drop 4000
                  [0..<5000::nat]) = Inr d3
              \<longrightarrow> sendBatchWithLimit (dropping_network 1 id null_result)
                  [0..<5000::nat] 2000 ?O ?ps =
                    Some (Inr (batch_map d1 Map.empty ++ batch_map d3 Map.empty),
                          ?ps @ [take 2000 [0..<5000::nat]]
                             @ replicate (Suc (retries ?O)) (take 2000 (drop 2000 [0..<5000::nat]))
                             @ [drop 4000 [0..<5000::nat]])
                  \<and> (distinct (map id [0..<5000::nat])
                       \<and> dom (batch_map d1 Map.empty) = id ` set (take 2000 [0..<5000::nat])
                       \<and> dom (batch_map d3 Map.empty) = id ` set (drop 4000 [0..<5000::nat])
                       \<longrightarrow> dom (batch_map d1 Map.empty ++ batch_map d3 Map.empty)
                             = id ` set (take 2000 [0..<5000::nat]) \<union> id ` set (drop 4000
                                 [0..<5000::nat])
                           \<and> dom (batch_map d1 Map.empty ++ batch_map d3 Map.empty)
                               \<inter> id ` set (take 2000 (drop 2000 [0..<5000::nat])) = {})"
      by (elim conjE)
    note V = M[rule_format, of "(answers id null_result (take 2000 [0..<5000::nat]))" "(answers id
        null_result (drop 4000 [0..<5000::nat]))", OF conjI[OF n0 conjI[OF n1 n2]]]
    have a: "sendBatchWithLimit (dropping_network 1 id null_result) [0..<5000::nat] 2000 ?O ?ps =
         Some (Inr (batch_map (answers id null_result (take 2000 [0..<5000::nat])) Map.empty
             ++ batch_map (answers id null_result (drop 4000 [0..<5000::nat])) Map.empty),
               [take 2000 [0..<5000::nat], take 2000 (drop 2000 [0..<5000::nat]),
                   drop 4000 [0..<5000::nat]])"
      using V[THEN conjunct1] by (simp del: upt_rec_numeral take_upt drop_upt)
    note W = V[THEN conjunct2, rule_format, OF conjI[OF di conjI[OF d1 d3]]]
    show ?thesis
      by (intro conjI) (rule l, rule a, rule W[THEN conjunct1], rule W[THEN conjunct2], rule U)
  qed
  have second: "length [0..<5000::nat] = 5000
   \<and> sendBatchWithLimit (answering_network id null_result) [0..<5000::nat] 2000
       \<lparr>timeout = 120000, retries = 0\<rparr> [] =
       Some (Inr (batch_map (answers id null_result (take 2000 [0..<5000::nat])) Map.empty
           ++ batch_map (answers id null_result (take 2000 (drop 2000 [0..<5000::nat]))) Map.empty
                  ++ batch_map (answers id null_result (drop 4000 [0..<5000::nat])) Map.empty),
             [take 2000 [0..<5000::nat], take 2000 (drop 2000 [0..<5000::nat]),
                 drop 4000 [0..<5000::nat]])"
  proof -
    let ?ps = "[] :: nat list list"
    let ?O = "\<lparr>timeout = 120000, retries = 0\<rparr>"
    let ?net = "answering_network id null_result :: (nat, nat) network"
    let ?r = "[0..<5000::nat]"
    have l: "length ?r = 5000" by simp
    have n0: "?net (length ?ps) (take 2000 ?r) = Inr (answers id null_result (take 2000 ?r))"
      by (simp only: answering_network_def)
    have n1: "?net (length ?ps + 1) (take 2000 (drop 2000 ?r))
        = Inr (answers id null_result (take 2000 (drop 2000 ?r)))"
      by (simp only: answering_network_def)
    have n2: "?net (length ?ps + 2) (drop 4000 ?r) = Inr (answers id null_result (drop 4000 ?r))"
      by (simp only: answering_network_def)
    note T = sendBatchWithLimit_slices[of ?r ?net ?ps ?O id 2000, THEN conjunct1, THEN mp, OF l]
    from T have M: "\<forall>d1 d2 d3.
        ?net (length ?ps) (take 2000 ?r) = Inr d1
        \<and> ?net (length ?ps + 1) (take 2000 (drop 2000 ?r)) = Inr d2
        \<and> ?net (length ?ps + 2) (drop 4000 ?r) = Inr d3
        \<longrightarrow> sendBatchWithLimit ?net ?r 2000 ?O ?ps =
              Some (Inr (batch_map d1 Map.empty ++ batch_map d2 Map.empty
                           ++ batch_map d3 Map.empty),
                    ?ps @ [take 2000 ?r, take 2000 (drop 2000 ?r), drop 4000 ?r])"
      by (elim conjE)
    note V = M[rule_format, OF conjI[OF n0 conjI[OF n1 n2]]]
    have a: "sendBatchWithLimit ?net ?r 2000 ?O [] =
         Some (Inr (batch_map (answers id null_result (take 2000 ?r)) Map.empty
                    ++ batch_map (answers id null_result (take 2000 (drop 2000 ?r))) Map.empty
                    ++ batch_map (answers id null_result (drop 4000 ?r)) Map.empty),
               [take 2000 ?r, take 2000 (drop 2000 ?r), drop 4000 ?r])"
      using V by (simp only: append_Nil)
    show ?thesis by (intro conjI) (rule l, rule a)
  qed
  show ?thesis by (rule conjI[OF first second])
qed

text \<open>
  Claim C5 as stated fails twice. A list of no requests is within every limit, yet
  \<open>sendBatchWithLimit\<close> sends nothing for it, where \<open>rpcBatch\<close>
  sends one POST. And with \<open>retries = 1\<close>, when exactly the second POST (the
  first of the middle slice) fails, the slice is sent again: four POSTs are issued and the
  merged map holds the ids of the middle slice too.
\<close>

theorem sendBatchWithLimit_empty_and_retry:
  "sendBatchWithLimit (dead_network :: (nat, nat) network) [] 2000 \<lparr>timeout = 120000,
      retries = 0\<rparr> [] = Some (Inr Map.empty, [])
   \<and> rpcBatch (dead_network :: (nat, nat) network) [] \<lparr>timeout = 120000, retries =
       0\<rparr> [] = (Inl TransportError, [[]])
   \<and> sendBatchWithLimit (dropping_network 1 id null_result) [0..<5000::nat] 2000
       \<lparr>timeout = 120000, retries = 1\<rparr> [] =
       Some (Inr (batch_map (answers id null_result (take 2000 [0..<5000::nat])) Map.empty
           ++ batch_map (answers id null_result (take 2000 (drop 2000 [0..<5000::nat]))) Map.empty
                    ++ batch_map (answers id null_result (drop 4000 [0..<5000::nat])) Map.empty),
             [take 2000 [0..<5000::nat], take 2000 (drop 2000 [0..<5000::nat]),
                 take 2000 (drop 2000 [0..<5000::nat]), drop 4000 [0..<5000::nat]])
   \<and> id ` set (take 2000 (drop 2000 [0..<5000::nat]))
       \<subseteq> dom (batch_map (answers id null_result (take 2000 [0..<5000::nat])) Map.empty
           ++ batch_map (answers id null_result (take 2000 (drop 2000 [0..<5000::nat]))) Map.empty
                ++ batch_map (answers id null_result (drop 4000 [0..<5000::nat])) Map.empty)"
proof (intro conjI)
  show "sendBatchWithLimit (dead_network :: (nat, nat) network) [] 2000 \<lparr>timeout = 120000,
      retries = 0\<rparr> [] = Some (Inr Map.empty, [])"
    by (simp add: sendBatchWithLimit_def)
  show "rpcBatch (dead_network :: (nat, nat) network) [] \<lparr>timeout = 120000, retries =
      0\<rparr> [] = (Inl TransportError, [[]])"
    by (simp add: rpcBatch_def rpcBatch_from.simps dead_network_def)
  let ?O = "\<lparr>timeout = 120000, retries = 1\<rparr>"
  have l: "length [0..<5000::nat] = 5000" by simp
  have r1: "rpcBatch (dropping_network 1 id null_result) (take 2000 [0..<5000::nat]) ?O [] =
      (Inr (batch_map (answers id null_result (take 2000 [0..<5000::nat])) Map.empty), []
      @ [take 2000 [0..<5000::nat]])"
    by (rule rpcBatch_success)
       (simp add: dropping_network_def answering_network_def del: upt_rec_numeral take_upt
           drop_upt)
  have r2: "rpcBatch (dropping_network 1 id null_result) (take 2000 (drop 2000 [0..<5000::nat]))
      ?O ([] @ [take 2000 [0..<5000::nat]])
      = (Inr (batch_map (answers id null_result (take 2000 (drop 2000 [0..<5000::nat])))
          Map.empty), ([] @ [take 2000 [0..<5000::nat]])
          @ [take 2000 (drop 2000 [0..<5000::nat]), take 2000 (drop 2000 [0..<5000::nat])])"
    by (rule rpcBatch_second_attempt[where e = TransportError and r = 0])
       (simp_all add: dropping_network_def answering_network_def
          del: upt_rec_numeral take_upt drop_upt)
  have r3: "rpcBatch (dropping_network 1 id null_result) (drop 4000 [0..<5000::nat]) ?O (([]
      @ [take 2000 [0..<5000::nat]]) @ [take 2000 (drop 2000 [0..<5000::nat]),
      take 2000 (drop 2000 [0..<5000::nat])])
      = (Inr (batch_map (answers id null_result (drop 4000 [0..<5000::nat])) Map.empty), (([]
          @ [take 2000 [0..<5000::nat]]) @ [take 2000 (drop 2000 [0..<5000::nat]),
          take 2000 (drop 2000 [0..<5000::nat])]) @ [drop 4000 [0..<5000::nat]])"
    by (rule rpcBatch_success)
       (simp add: dropping_network_def answering_network_def del: upt_rec_numeral take_upt
           drop_upt)
  show "sendBatchWithLimit (dropping_network 1 id null_result) [0..<5000::nat] 2000 ?O [] =
       Some (Inr (batch_map (answers id null_result (take 2000 [0..<5000::nat])) Map.empty
           ++ batch_map (answers id null_result (take 2000 (drop 2000 [0..<5000::nat]))) Map.empty
                    ++ batch_map (answers id null_result (drop 4000 [0..<5000::nat])) Map.empty),
             [take 2000 [0..<5000::nat], take 2000 (drop 2000 [0..<5000::nat]),
                 take 2000 (drop 2000 [0..<5000::nat]), drop 4000 [0..<5000::nat]])"
    using sendBatchWithLimit_5000[OF l r1 r2 r3]
    by (simp del: upt_rec_numeral take_upt drop_upt)
  have "dom (batch_map (answers id null_result (take 2000 (drop 2000 [0..<5000::nat]))) Map.empty)
      = id ` set (take 2000 (drop 2000 [0..<5000::nat]))"
    by (simp only: dom_batch_map_answers dom_empty Un_empty_left)
  then show "id ` set (take 2000 (drop 2000 [0..<5000::nat]))
       \<subseteq> dom (batch_map (answers id null_result (take 2000 [0..<5000::nat])) Map.empty
           ++ batch_map (answers id null_result (take 2000 (drop 2000 [0..<5000::nat]))) Map.empty
                ++ batch_map (answers id null_result (drop 4000 [0..<5000::nat])) Map.empty)"
    by (simp only: dom_map_add) blast
qed

section \<open>Properties of SeriesWindow\<close>

lemma slice_loop_returns:
  assumes mp: "0 < maxPer"
  shows "0 \<le> i \<Longrightarrow> \<exists>r. slice_loop net reqs maxPer opts i m ps = Some r"
proof (induction "length reqs - nat i" arbitrary: i m ps rule: less_induct)
  case less
  show ?case
  proof (cases "i < int (length reqs)")
    case False
    then show ?thesis by (simp add: slice_loop_done)
  next
    case True
    have "length reqs - nat (i + maxPer) < length reqs - nat i"
      using True less.prems mp by (simp add: nat_add_distrib)
    then have "\<exists>r. slice_loop net reqs maxPer opts (i + maxPer)
        (case fst (rpcBatch net (js_slice reqs i (i + maxPer)) opts ps) of
           Inr partMap \<Rightarrow> m ++ partMap | Inl err \<Rightarrow> m)
        (snd (rpcBatch net (js_slice reqs i (i + maxPer)) opts ps)) = Some r"
      using less.hyps[of "i + maxPer"] less.prems mp by simp
    then show ?thesis by (simp add: slice_loop_step[OF True])
  qed
qed

lemma sendBatchWithLimit_returns:
  "0 < maxPer \<Longrightarrow> \<exists>r ps'. sendBatchWithLimit net reqs maxPer opts ps =
      Some (r, ps')"
  using slice_loop_returns[of maxPer 0 net reqs opts Map.empty ps]
  by (cases "rpcBatch net reqs opts ps") (auto simp: sendBatchWithLimit_def)

lemma sendBatchWithLimit_or_empty_returns:
  "0 < maxPer \<Longrightarrow> \<exists>m ps'. sendBatchWithLimit_or_empty net reqs maxPer opts
      ps = Some (m, ps')"
  using sendBatchWithLimit_returns[of maxPer net reqs opts ps]
  by (auto simp: sendBatchWithLimit_or_empty_def)

lemma fetch_combined_returns: "\<exists>m ps'. fetch_combined net batch ps = Some (m, ps')"
proof -
  have s: "\<And>ps. \<exists>m ps'. sendBatchWithLimit_or_empty net batch 2000
      \<lparr>timeout = 120000, retries = 0\<rparr> ps = Some (m, ps')"
    by (rule sendBatchWithLimit_or_empty_returns) simp
  show ?thesis
    unfolding fetch_combined_def Let_def
    using s by (auto split: prod.splits sum.splits)
qed

lemma length_block_requests: "length (concat (map block_requests ns)) = 3 * length ns"
  by (induction ns) (simp_all add: block_requests_def)

lemma js_slice_prefix:
  "0 \<le> k \<Longrightarrow> k \<le> int (length xs)
      \<Longrightarrow> js_slice xs 0 k = take (nat k) xs"
  by (simp add: js_slice_def Let_def)

lemma js_slice_suffix:
  "0 \<le> k \<Longrightarrow> k \<le> int (length xs)
      \<Longrightarrow> js_slice xs k (int (length xs)) = drop (nat k) xs"
  by (simp add: js_slice_def Let_def)

lemma fetch_combined_two_posts:
  assumes len: "1 < length batch"
    and h: "h = (length batch + 1) div 2"
    and a: "net (length ps) (take h batch) = Inr d1"
    and b: "net (Suc (length ps)) (drop h batch) = Inr d2"
  shows "fetch_combined net batch ps =
    Some (batch_map d1 Map.empty ++ batch_map d2 Map.empty, ps @ [take h batch, drop h batch])"
proof -
  have mid: "(int (length batch) + 1) div 2 = int h" unfolding h by (simp add: zdiv_int)
  have m0: "0 \<le> int h" "int h \<le> int (length batch)" using len unfolding h by auto
  have f: "js_slice batch 0 (int h) = take h batch"
    using js_slice_prefix[OF m0] by simp
  have g: "js_slice batch (int h) (int (length batch)) = drop h batch"
    using js_slice_suffix[OF m0] by simp
  have r1: "rpcBatch net (take h batch) \<lparr>timeout = 180000, retries = 0\<rparr> ps
      = (Inr (batch_map d1 Map.empty), ps @ [take h batch])"
    using a by (rule rpcBatch_success)
  have r2: "rpcBatch net (drop h batch) \<lparr>timeout = 180000, retries = 0\<rparr> (ps
      @ [take h batch])
      = (Inr (batch_map d2 Map.empty), (ps @ [take h batch]) @ [drop h batch])"
    using b by (intro rpcBatch_success) simp
  have "\<not> length batch \<le> 1" using len by simp
  then show ?thesis
    unfolding fetch_combined_def Let_def mid f g by (simp add: r1 r2)
qed

lemma to_double_exact: "\<bar>x\<bar> \<le> 2 ^ 53 \<Longrightarrow> to_double x = x"
proof -
  assume a: "\<bar>x\<bar> \<le> 2 ^ 53"
  have p: "to_double (2 ^ 53) = 2 ^ 53" by code_simp
  have n: "to_double (- (2 ^ 53)) = - (2 ^ 53)" by code_simp
  consider "\<bar>x\<bar> < 2 ^ 53" | "x = 2 ^ 53" | "x = - (2 ^ 53)" using a by linarith
  then show ?thesis
  proof cases
    case 1
    then show ?thesis by (simp add: to_double_def)
  next
    case 2
    then show ?thesis using p by simp
  next
    case 3
    then show ?thesis using n by simp
  qed
qed

lemma block_loop_exact:
  assumes "a \<le> b + 1" and "- (2 ^ 53) \<le> a" and "b < 2 ^ 53"
  shows "block_loop a b acc = Some (acc @ [a..b])"
  using assms
proof (induction "nat (b + 1 - a)" arbitrary: a acc)
  case 0
  then have "a = b + 1" by simp
  then show ?case by (subst block_loop.simps) simp
next
  case (Suc k)
  then have le: "a \<le> b" by simp
  have ex: "num_add a 1 = a + 1"
    unfolding num_add_def using Suc.prems le by (intro to_double_exact) simp
  have "block_loop a b acc = block_loop (a + 1) b (acc @ [a])"
    using le by (subst block_loop.simps) (simp add: ex)
  also have "\<dots> = Some ((acc @ [a]) @ [a + 1..b])"
    using Suc.hyps Suc.prems le by (intro Suc.hyps(1)) simp_all
  also have "(acc @ [a]) @ [a + 1..b] = acc @ [a..b]"
    using le by (simp add: upto_rec1)
  finally show ?case .
qed

lemma fetchWindowData_call_fails:
  assumes "blockNumberReply nd (blockNumberCalls st) = Inl err"
  shows "fetchWindowData nd st =
    Some (st\<lparr>windowInput := Some (input_or (windowInput st) 4000),
             chunkInput := Some (input_or (chunkInput st) 200),
             blockNumberCalls := Suc (blockNumberCalls st),
             statusError := Some err\<rparr>)"
  using assms by (simp add: fetchWindowData_def Let_def)

lemma fetchWindowData_no_blocks:
  assumes "blockNumberReply nd (blockNumberCalls st) = Inr latest"
    and "block_list
           (map_option (\<lambda>l. max 0 (num_add (num_sub l (input_or (windowInput st) 4000)) 1))
              latest)
           latest = Some []"
  shows "fetchWindowData nd st =
    Some (st\<lparr>windowInput := Some (input_or (windowInput st) 4000),
             chunkInput := Some (input_or (chunkInput st) 200),
             blockNumberCalls := Suc (blockNumberCalls st),
             statusError := Some NoPrimeBlocks\<rparr>)"
  using assms by (simp add: fetchWindowData_def Let_def)

lemma fetchWindowData_rebuilds:
  assumes bn: "blockNumberReply nd (blockNumberCalls st) = Inr (Some l)"
    and a: "a = max 0 (num_add (num_sub l (input_or (windowInput st) 4000)) 1)"
    and al: "a \<le> l" and lt: "l < 2 ^ 53"
    and c: "0 < input_or (chunkInput st) 200"
    and fc: "fetch_combined (batchReply nd) (concat (map block_requests [a..l])) (posts st)
               = Some (m, ps)"
  shows "fetchWindowData nd st =
    Some (st\<lparr>windowInput := Some (input_or (windowInput st) 4000),
             chunkInput := Some (input_or (chunkInput st) 200),
             blockNumberCalls := Suc (blockNumberCalls st),
             posts := ps,
             currentSeries := map (\<lambda>n. projr (build_sample m n)) [a..l],
             chartRows := map (\<lambda>g. the (chunk_row_of g))
                (consecutive_groups (nat (input_or (chunkInput st) 200))
                   (map (\<lambda>n. projr (build_sample m n)) [a..l])),
             statusError := status_after_draw (map (\<lambda>n. projr (build_sample m n)) [a..l])
                              (statusError st)\<rparr>)"
proof -
  have "0 \<le> a" unfolding a by simp
  then have bl: "block_list (Some a) (Some l) = Some [a..l]"
    using al lt by (simp add: block_list_def block_loop_exact)
  have ne: "[a..l] \<noteq> []" using al by simp
  have bs: "build_series m [a..l] [] = Inr (map (\<lambda>n. projr (build_sample m n)) [a..l])"
    by (simp add: build_series_eq)
  show ?thesis
    using bn ne al
    by (simp add: fetchWindowData_def Let_def bl a[symmetric] fc bs
        updateUIFromSeries_groups[OF c])
qed

lemma build_sample_absent:
  assumes "m (BlockId n Tag_m) = None" "m (BlockId n Tag_b) = None" "m (BlockId n Tag_h) = None"
  shows "build_sample m n =
    Inr \<lparr>primeNum = n, header = JNull, dInstant = None, dStar = None, deltaK = Finite 0,
         ratio = Finite 1, convInfo = JNull, kQuai = JNull\<rparr>"
  using assms
  by (simp add: build_sample_def lookup_or_null_def or_null_def parsed_difficulty_def
      try_catch_def bindE_def formula_used_def Decimal_of_int_def)

lemma primeNum_series: "map primeNum (map (\<lambda>n. projr (build_sample m n)) ns) = ns"
  by (induction ns) (simp_all add: primeNum_build_sample)

lemma primeNum_series_comp: "map (primeNum \<circ> (\<lambda>n. projr (build_sample m n))) ns = ns"
  using primeNum_series[of m ns] by simp

lemma status_after_draw_series:
  assumes "a \<le> l"
  shows "status_after_draw (map (\<lambda>n. projr (build_sample m n)) [a..l]) old
    = (if l = 0 then old else None)"
proof -
  have ne: "[a..l] \<noteq> []" using assms by simp
  have "last [a..l] = l" using assms by (simp add: upto_rec2)
  then have "primeNum (last (map (\<lambda>n. projr (build_sample m n)) [a..l])) = l"
    using ne by (simp add: last_map primeNum_build_sample)
  then show ?thesis using ne by (simp add: status_after_draw_def)
qed

text \<open>
  Claim C4. When the latest block is 10000, the window is 4000, and the node answers the
  block-number call and the two POSTs of the combined batch, \<open>fetchWindowData\<close>
  leaves a series of exactly 4000 samples whose block numbers are 6001 to 10000, strictly
  ascending and without repetition. The batch holds, for each block in that order, its three
  requests (normalized miner difficulty, normalized best difficulty, header), with the ids
  of that block: 12000 requests, sent as two POSTs of 6000.
\<close>

theorem fetchWindowData_window:
  assumes "input_or (windowInput st) 4000 = 4000"
    and "0 < input_or (chunkInput st) 200"
    and "blockNumberReply nd (blockNumberCalls st) = Inr (Some 10000)"
    and "batchReply nd (length (posts st))
           (take 6000 (concat (map block_requests [6001..10000]))) = Inr d1"
    and "batchReply nd (Suc (length (posts st)))
           (drop 6000 (concat (map block_requests [6001..10000]))) = Inr d2"
  shows "\<exists>st'. fetchWindowData nd st = Some st'
      \<and> map primeNum (currentSeries st') = [6001..10000]
      \<and> length (currentSeries st') = 4000
      \<and> sorted_wrt (<) (map primeNum (currentSeries st'))
      \<and> distinct (map primeNum (currentSeries st'))
      \<and> currentSeries st' =
          map (\<lambda>n. projr (build_sample (batch_map d1 Map.empty
              ++ batch_map d2 Map.empty) n))
            [6001..10000]
      \<and> statusError st' = None
      \<and> posts st' = posts st @ [take 6000 (concat (map block_requests [6001..10000])),
                                 drop 6000 (concat (map block_requests [6001..10000]))]
      \<and> length (concat (map block_requests [6001..10000])) = 12000
      \<and> (\<forall>n. map req_id (block_requests n) = [BlockId n Tag_m, BlockId n Tag_b,
          BlockId n Tag_h]
             \<and> map req_method (block_requests n) =
                 [quai_getMinerDiffNormalized, quai_getBestDiffNormalized, quai_getHeaderByNumber]
             \<and> map req_params (block_requests n) = [n, n, n])"
proof -
  let ?cb = "concat (map block_requests [6001..10000])"
  let ?m = "batch_map d1 Map.empty ++ batch_map d2 Map.empty"
  have len: "length ?cb = 12000" by (simp add: length_block_requests del: upto_rec_numeral)
  have fc: "fetch_combined (batchReply nd) ?cb (posts st)
      = Some (?m, posts st @ [take 6000 ?cb, drop 6000 ?cb])"
    by (rule fetch_combined_two_posts[where h = 6000])
       (simp_all add: len assms(4,5) del: upto_rec_numeral)
  have a: "(6001::int) = max 0 (num_add (num_sub 10000 (input_or (windowInput st) 4000)) 1)"
    by (simp add: assms(1) num_add_def num_sub_def to_double_def)
  note R = fetchWindowData_rebuilds[OF assms(3) a _ _ assms(2) fc]
  show ?thesis
    by (subst R)
       (simp_all add: primeNum_series_comp len block_requests_def status_after_draw_series
          del: upto_rec_numeral)
qed

theorem fetchWindowData_window_witness:
  "input_or (windowInput \<lparr>currentSeries = [], autoDetectedPrimes = 0, windowInput = None,
      chunkInput = None, posts = [], blockNumberCalls = 0, chartRows = [], statusError =
      None\<rparr>) 4000 = 4000
   \<and> 0 < input_or (chunkInput \<lparr>currentSeries = [], autoDetectedPrimes = 0,
       windowInput = None, chunkInput = None, posts = [], blockNumberCalls = 0, chartRows = [],
       statusError = None\<rparr>) 200
   \<and> blockNumberReply (node_at 10000 (answering_network req_id (\<lambda>q. JStr (js
       ''0x2'')))) 0 = Inr (Some 10000)
   \<and> (\<exists>st'. fetchWindowData (node_at 10000 (answering_network req_id (\<lambda>q.
       JStr (js ''0x2'')))) \<lparr>currentSeries = [], autoDetectedPrimes = 0, windowInput =
       None, chunkInput = None, posts = [], blockNumberCalls = 0, chartRows = [], statusError =
       None\<rparr> = Some st'
         \<and> map primeNum (currentSeries st') = [6001..10000]
         \<and> length (currentSeries st') = 4000
         \<and> length (posts st') = 2)"
proof -
  let ?st = "\<lparr>currentSeries = [], autoDetectedPrimes = 0, windowInput = None, chunkInput =
      None, posts = [], blockNumberCalls = 0, chartRows = [], statusError = None\<rparr>"
  let ?nd = "(node_at 10000 (answering_network req_id (\<lambda>q. JStr (js ''0x2''))))"
  have p1: "input_or (windowInput ?st) 4000 = 4000" by (simp add: input_or_def)
  have p2: "0 < input_or (chunkInput ?st) 200" by (simp add: input_or_def)
  have p3: "blockNumberReply ?nd (blockNumberCalls ?st) = Inr (Some 10000)"
    by (simp add: node_at_def)
  have p4: "batchReply ?nd (length (posts ?st)) (take 6000 (concat (map block_requests
      [6001..10000]))) = Inr (map (\<lambda>q. Item (Some (req_id q)) False (JStr (js ''0x2'')))
      (take 6000 (concat (map block_requests [6001..10000]))))"
    by (simp add: node_at_def answering_network_def answers_def del: upto_rec_numeral)
  have p5: "batchReply ?nd (Suc (length (posts ?st))) (drop 6000 (concat (map block_requests
      [6001..10000]))) = Inr (map (\<lambda>q. Item (Some (req_id q)) False (JStr (js ''0x2'')))
      (drop 6000 (concat (map block_requests [6001..10000]))))"
    by (simp add: node_at_def answering_network_def answers_def del: upto_rec_numeral)
  from fetchWindowData_window[OF p1 p2 p3 p4 p5] obtain st' where
    s: "fetchWindowData ?nd ?st = Some st'"
      "map primeNum (currentSeries st') = [6001..10000]"
      "length (currentSeries st') = 4000"
      "posts st' = posts ?st @ [take 6000 (concat (map block_requests [6001..10000])),
          drop 6000 (concat (map block_requests [6001..10000]))]"
    by blast
  have l: "length (posts st') = 2" unfolding s(4) by (simp del: upto_rec_numeral)
  have b: "blockNumberReply ?nd 0 = Inr (Some 10000)" by (simp add: node_at_def)
  show ?thesis
    by (intro conjI exI[of _ st']) (rule p1 p2 b s(1) s(2) s(3) l)+
qed

text \<open>
  Claim C7. When the series is not empty and the latest block is not beyond its last block,
  \<open>fetchAndAppendLatest\<close> returns with the series as it was (same samples, same
  order) and without any batch POST; nothing but the count of block-number calls changes.
\<close>

theorem fetchAndAppendLatest_noop:
  assumes "currentSeries st \<noteq> []"
    and "blockNumberReply nd (blockNumberCalls st) = Inr (Some latest)"
    and "latest \<le> primeNum (last (currentSeries st))"
  shows "\<exists>st'. fetchAndAppendLatest nd st = Some st'
      \<and> currentSeries st' = currentSeries st
      \<and> posts st' = posts st
      \<and> st' = st\<lparr>blockNumberCalls := Suc (blockNumberCalls st)\<rparr>"
  using assms by (simp add: fetchAndAppendLatest_def Let_def)

theorem fetchAndAppendLatest_noop_witness:
  "currentSeries \<lparr>currentSeries = [\<lparr>primeNum = 10, header = JNull, dInstant = None,
      dStar = None, deltaK = Finite 0, ratio = Finite 1, convInfo = JNull, kQuai = JNull\<rparr>],
      autoDetectedPrimes = 0, windowInput = Some 4000, chunkInput = Some 200, posts = [],
      blockNumberCalls = 3, chartRows = [], statusError = None\<rparr> \<noteq> []
   \<and> blockNumberReply (node_at 10 dead_network) 3 = Inr (Some 10)
   \<and> (10::int) \<le> primeNum (last (currentSeries \<lparr>currentSeries =
       [\<lparr>primeNum = 10, header = JNull, dInstant = None, dStar = None, deltaK = Finite 0,
       ratio = Finite 1, convInfo = JNull, kQuai = JNull\<rparr>], autoDetectedPrimes = 0,
       windowInput = Some 4000, chunkInput = Some 200, posts = [], blockNumberCalls = 3,
       chartRows = [], statusError = None\<rparr>))
   \<and> fetchAndAppendLatest (node_at 10 dead_network) \<lparr>currentSeries =
       [\<lparr>primeNum = 10, header = JNull, dInstant = None, dStar = None, deltaK = Finite 0,
       ratio = Finite 1, convInfo = JNull, kQuai = JNull\<rparr>], autoDetectedPrimes = 0,
       windowInput = Some 4000, chunkInput = Some 200, posts = [], blockNumberCalls = 3,
       chartRows = [], statusError = None\<rparr> = Some \<lparr>currentSeries =
       [\<lparr>primeNum = 10, header = JNull, dInstant = None, dStar = None, deltaK = Finite 0,
       ratio = Finite 1, convInfo = JNull, kQuai = JNull\<rparr>], autoDetectedPrimes = 0,
       windowInput = Some 4000, chunkInput = Some 200, posts = [], blockNumberCalls = 4,
       chartRows = [], statusError = None\<rparr>"
proof -
  let ?st = "\<lparr>currentSeries = [\<lparr>primeNum = 10, header = JNull, dInstant = None,
      dStar = None, deltaK = Finite 0, ratio = Finite 1, convInfo = JNull, kQuai = JNull\<rparr>],
      autoDetectedPrimes = 0, windowInput = Some 4000, chunkInput = Some 200, posts = [],
      blockNumberCalls = 3, chartRows = [], statusError = None\<rparr>"
  have a: "currentSeries ?st \<noteq> []" by simp
  have b: "blockNumberReply (node_at 10 dead_network) (blockNumberCalls ?st) = Inr (Some 10)"
    by (simp add: node_at_def)
  have c: "(10::int) \<le> primeNum (last (currentSeries ?st))" by simp
  show ?thesis using fetchAndAppendLatest_noop[OF a b c] a b c by simp
qed

lemma series_guard_never_fires:
  assumes "build_series m ns [] = Inr series" and "ns \<noteq> []"
  shows "series \<noteq> []" and "length series = length ns"
proof -
  have "series = map (\<lambda>n. projr (build_sample m n)) ns"
    using assms(1) by (simp add: build_series_eq)
  then show "series \<noteq> []" and "length series = length ns"
    using assms(2) by simp_all
qed

text \<open>
  Claim C3 says that a rebuild which cannot obtain the whole block range fails as a unit and
  leaves the series it held unchanged. \<open>fetchWindowData\<close> attempts this: before
  \<^verbatim>\<open>currentSeries = series\<close> it throws
  \<^verbatim>\<open>No valid Prime samples in this window.\<close> when the new series is
  empty. The loop above that guard pushes one sample per block whatever the map of results
  holds, so the new series is never empty (\<open>series_guard_never_fires\<close>) and the
  guard never fires. The code is evaluated here where the claim fails: the series holds block
  3, the window is 2, the latest block is 5, and every batch POST fails.
  \<open>fetchWindowData\<close> catches each failure, ends with an empty map, and replaces the
  series by two samples of neutral defaults for the blocks 4 and 5, with no error on the
  status line.
\<close>

theorem fetchWindowData_overwrites:
  "fetchWindowData (node_at 5 dead_network)
     \<lparr>currentSeries =
        [\<lparr>primeNum = 3, header = JNull, dInstant = Some (Finite 2),
          dStar = Some (Finite 2), deltaK = Finite 0, ratio = Finite 1, convInfo = JNull,
          kQuai = JNull\<rparr>],
      autoDetectedPrimes = 0, windowInput = Some 2, chunkInput = Some 200, posts = [],
      blockNumberCalls = 0, chartRows = [], statusError = None\<rparr>
   = Some
     \<lparr>currentSeries =
        [\<lparr>primeNum = 4, header = JNull, dInstant = None, dStar = None,
          deltaK = Finite 0, ratio = Finite 1, convInfo = JNull, kQuai = JNull\<rparr>,
         \<lparr>primeNum = 5, header = JNull, dInstant = None, dStar = None,
          deltaK = Finite 0, ratio = Finite 1, convInfo = JNull, kQuai = JNull\<rparr>],
      autoDetectedPrimes = 0, windowInput = Some 2, chunkInput = Some 200,
      posts = [block_requests 4, block_requests 4 @ block_requests 5],
      blockNumberCalls = 1,
      chartRows =
        [\<lparr>firstPrime = 4, lastPrime = 5, avgD = Finite 0, avgDStar = Finite 0,
          avgDk = Finite 0\<rparr>],
      statusError = None\<rparr>"
  by code_simp

end
